theory Spec2Isabelle
  imports Main
begin

section \<open>Exceptions, log records and effects\<close>

text \<open>
  Python exceptions are values. The classes that \<^verbatim>\<open>main.py\<close> raises or names in an
  \<^verbatim>\<open>except\<close> clause have a constructor of their own, and so has the error of decoding
  bytes that are no text, \<open>UnicodeDecodeError\<close>; every other class is
  \<open>OtherException\<close>. Each carries the arguments it was raised with: status code and
  detail for \<open>HTTPException\<close>, the missing key for \<open>KeyError\<close>, the message for the
  others. \<open>exn_str\<close> is \<^verbatim>\<open>str(e)\<close>.
\<close>

datatype exn =
    HTTPException nat string
  | RuntimeError string
  | JSONDecodeError string
  | RequestError string
  | RefreshError string
  | IndexError string
  | KeyError string
  | UnicodeDecodeError string
  | OtherException string

fun show_nat :: "nat \<Rightarrow> string" where
  "show_nat n =
     (if n < 10 then [''0123456789'' ! n]
      else show_nat (n div 10) @ [''0123456789'' ! (n mod 10)])"

declare show_nat.simps [simp del]

fun exn_str :: "exn \<Rightarrow> string" where
  "exn_str (HTTPException s d) = show_nat s @ '': '' @ d"
| "exn_str (RuntimeError m) = m"
| "exn_str (JSONDecodeError m) = m"
| "exn_str (RequestError m) = m"
| "exn_str (RefreshError m) = m"
| "exn_str (IndexError m) = m"
| "exn_str (KeyError k) = CHR 0x27 # k @ [CHR 0x27]"
| "exn_str (UnicodeDecodeError m) = m"
| "exn_str (OtherException m) = m"

text \<open>
  The stages of one request, in the vocabulary of the specification. They are recorded
  in the trace at the place where the source starts them, so that their order can be
  stated.
\<close>

datatype stage = Authenticate | ParseBody | BuildTarget | FetchToken | Forward | Relay

text \<open>
  What a run does besides returning: the lines written to the audit log, the round trip
  of \<^verbatim>\<open>creds.refresh\<close> to the identity provider, and the POST to the upstream with its
  URL, JSON payload and headers. \<open>'j\<close> is the type of parsed JSON values.
\<close>

datatype log_record = LogInfo string | LogWarning string | LogError string

datatype 'j event =
    Log log_record
  | RefreshRoundTrip
  | UpstreamPost string 'j "(string \<times> string) list"
  | Stage stage

section \<open>The static key table\<close>

record client_info =
  name :: string
  active :: bool

definition VALID_API_KEYS :: "(string \<times> client_info) list" where
  "VALID_API_KEYS =
     [(''sk-client-veo-001'', \<lparr>name = ''VIP Client A'', active = True\<rparr>),
      (''sk-burncloud-admin'', \<lparr>name = ''Admin Test'', active = True\<rparr>)]"

section \<open>The caller's key: \<^verbatim>\<open>verify_api_key\<close>\<close>

text \<open>
  Of the inbound request the handler reads the value of the Authorization header
  (\<^verbatim>\<open>request.headers.get("Authorization")\<close>, \<open>None\<close> when the header is absent) and the
  raw body.
\<close>

record request =
  authorization :: "string option"
  raw_body :: string

text \<open>\<^verbatim>\<open>s.startswith(p)\<close>.\<close>

definition startswith :: "string \<Rightarrow> string \<Rightarrow> bool" where
  "startswith s p = (take (length p) s = p)"

text \<open>\<^verbatim>\<open>s.split(sep)\<close> with an explicit one-character separator: every occurrence cuts,
  empty pieces are kept, and the empty string gives one empty piece.\<close>

fun str_split :: "char \<Rightarrow> string \<Rightarrow> string list" where
  "str_split sep [] = [[]]"
| "str_split sep (c # cs) =
     (if c = sep then [] # str_split sep cs
      else (case str_split sep cs of
              [] \<Rightarrow> [[c]]
            | w # ws \<Rightarrow> (c # w) # ws))"

text \<open>\<^verbatim>\<open>xs[i]\<close> for \<open>i \<ge> 0\<close>; out of range raises.\<close>

definition list_get :: "'a list \<Rightarrow> nat \<Rightarrow> exn + 'a" where
  "list_get xs i =
     (if i < length xs then Inr (xs ! i) else Inl (IndexError ''list index out of range''))"

definition verify_api_key ::
  "(string \<times> client_info) list \<Rightarrow> request \<Rightarrow> (exn + string) \<times> log_record list" where
  "verify_api_key keys req =
     (case authorization req of
        None \<Rightarrow> (Inl (HTTPException 401 ''Missing or invalid Authorization header''), [])
      | Some auth_header \<Rightarrow>
          if auth_header = [] \<or> \<not> startswith auth_header ''Bearer '' then
            (Inl (HTTPException 401 ''Missing or invalid Authorization header''), [])
          else
            (case list_get (str_split CHR '' '' auth_header) 1 of
               Inl e \<Rightarrow> (Inl e, [])
             | Inr api_key \<Rightarrow>
                 (case map_of keys api_key of
                    None \<Rightarrow>
                      (Inl (HTTPException 401 ''Invalid API Key''),
                       [LogWarning (''Unauthorized access attempt with key: ''
                                     @ take 8 api_key @ ''***'')])
                  | Some info \<Rightarrow>
                      if \<not> active info then
                        (Inl (HTTPException 403 ''API Key is inactive''), [])
                      else (Inr api_key, []))))"

section \<open>The environment of a run\<close>

text \<open>
  \<^verbatim>\<open>httpx.Response\<close> as the handler reads it: the status code and the body bytes.
\<close>

record httpx_response =
  status_code :: nat
  content :: string

text \<open>\<^verbatim>\<open>JSONResponse(content=..., status_code=...)\<close>, holding the rendered body.\<close>

datatype client_response = JSONResponse string nat

text \<open>
  Everything outside \<^verbatim>\<open>main.py\<close> that a run depends on is a field of the world, so
  that the theorems below hold for whatever these collaborators do:
  \<^item> \<open>PROJECT_ID\<close>, \<open>REGION\<close>: the configuration read from the process environment;
  \<^item> \<open>now\<close> and \<open>now_again\<close>: the clock, in seconds, at the two moments at which
    \<^verbatim>\<open>get_token\<close> reads it; \<open>REFRESH_THRESHOLD\<close>: the margin by which the
    credentials library regards a token as expired before its expiry;
  \<^item> \<open>jwt_grant\<close>: what the identity provider answers to a refresh round trip, an
    exception or a token with its expiry;
  \<^item> \<open>json_loads\<close>: the JSON parser behind \<^verbatim>\<open>request.json()\<close> and
    \<^verbatim>\<open>response.json()\<close>; \<open>json_dumps\<close>: the rendering of \<^verbatim>\<open>JSONResponse\<close>;
  \<^item> \<open>http_post\<close>: what \<^verbatim>\<open>client.post(url, json=..., headers=...)\<close> yields, an
    exception or the upstream's response.
\<close>

record 'j world =
  PROJECT_ID :: string
  REGION :: string
  now :: int
  now_again :: int
  REFRESH_THRESHOLD :: int
  jwt_grant :: "exn + string \<times> int"
  json_loads :: "string \<Rightarrow> exn + 'j"
  json_dumps :: "'j \<Rightarrow> exn + string"
  http_post :: "string \<Rightarrow> 'j \<Rightarrow> (string \<times> string) list \<Rightarrow> exn + httpx_response"

section \<open>The credential manager: \<^verbatim>\<open>GoogleAuthManager\<close>\<close>

text \<open>
  The credentials object of the library, as far as \<^verbatim>\<open>get_token\<close> reads and
  \<^verbatim>\<open>refresh\<close> writes it: the cached token and its expiry, both absent until the first
  refresh. The library's properties \<^verbatim>\<open>expired\<close> and \<^verbatim>\<open>valid\<close> read the clock each time
  they are read: a token without expiry never expires, a token with an expiry is expired
  from \<open>REFRESH_THRESHOLD\<close> seconds before it, and a valid token is a present, unexpired
  one. \<^verbatim>\<open>get_token\<close> reads \<^verbatim>\<open>creds.valid\<close> first and, when that is true,
  \<^verbatim>\<open>creds.expired\<close> afterwards: \<open>valid\<close> is the first reading, at the time \<open>now\<close>, and
  \<open>expired\<close> is the second, at the time \<open>now_again\<close>. \<open>refresh\<close> stores the token and
  expiry of a successful round trip and leaves the object as it is when the round trip
  raises.
\<close>

record credentials =
  token :: "string option"
  expiry :: "int option"

definition expired_at :: "'j world \<Rightarrow> int \<Rightarrow> credentials \<Rightarrow> bool" where
  "expired_at w t c =
     (case expiry c of
        None \<Rightarrow> False
      | Some e \<Rightarrow> t \<ge> e - REFRESH_THRESHOLD w)"

definition valid :: "'j world \<Rightarrow> credentials \<Rightarrow> bool" where
  "valid w c = (token c \<noteq> None \<and> \<not> expired_at w (now w) c)"

definition expired :: "'j world \<Rightarrow> credentials \<Rightarrow> bool" where
  "expired w c = expired_at w (now_again w) c"

definition refresh :: "'j world \<Rightarrow> credentials \<Rightarrow> exn + credentials" where
  "refresh w c =
     (case jwt_grant w of
        Inl e \<Rightarrow> Inl e
      | Inr (access_token, exp) \<Rightarrow> Inr (c\<lparr>token := Some access_token, expiry := Some exp\<rparr>))"

text \<open>
  The manager holds \<^verbatim>\<open>self.creds\<close>, \<open>None\<close> when the key file was not found.
  (\<^verbatim>\<open>self.auth_req\<close> is a stateless transport handle set together with the credentials.)
\<close>

record manager =
  creds :: "credentials option"

text \<open>
  \<^verbatim>\<open>__init__\<close>. The file system is a map from paths to what loading the key file
  there gives: absent from the map when \<^verbatim>\<open>os.path.exists\<close> is false, an exception when
  the file cannot be loaded.
\<close>

definition GoogleAuthManager_init ::
  "(string \<rightharpoonup> exn + credentials) \<Rightarrow> string \<Rightarrow> (exn + manager) \<times> log_record list" where
  "GoogleAuthManager_init fs key_path =
     (case fs key_path of
        None \<Rightarrow>
          (Inr \<lparr>creds = None\<rparr>,
           [LogWarning (''GCP Credential file NOT found at: '' @ key_path
                         @ ''. GCP calls will fail.'')])
      | Some loaded \<Rightarrow>
          (case loaded of
             Inl e \<Rightarrow> (Inl e, [LogInfo (''Loading GCP credentials from '' @ key_path)])
           | Inr c \<Rightarrow>
               (Inr \<lparr>creds = Some c\<rparr>,
                [LogInfo (''Loading GCP credentials from '' @ key_path)])))"

text \<open>
  \<^verbatim>\<open>get_token\<close> returns the outcome, the manager after the call and the effects of the
  call. The returned token is \<^verbatim>\<open>self.creds.token\<close>, which the type allows to be
  \<open>None\<close>.
\<close>

definition get_token ::
  "'j world \<Rightarrow> manager \<Rightarrow> (exn + string option) \<times> manager \<times> 'j event list" where
  "get_token w m =
     (case creds m of
        None \<Rightarrow> (Inl (RuntimeError ''GCP Credentials not initialized''), m, [])
      | Some c \<Rightarrow>
          if \<not> valid w c then
            (case refresh w c of
               Inl e \<Rightarrow>
                 (Inl e, m, [Log (LogInfo ''Refreshing GCP access token...''), RefreshRoundTrip])
             | Inr c' \<Rightarrow>
                 (Inr (token c'), m\<lparr>creds := Some c'\<rparr>,
                  [Log (LogInfo ''Refreshing GCP access token...''), RefreshRoundTrip]))
          else if expired w c then
            (case refresh w c of
               Inl e \<Rightarrow>
                 (Inl e, m, [Log (LogInfo ''GCP token expired, refreshing...''), RefreshRoundTrip])
             | Inr c' \<Rightarrow>
                 (Inr (token c'), m\<lparr>creds := Some c'\<rparr>,
                  [Log (LogInfo ''GCP token expired, refreshing...''), RefreshRoundTrip]))
          else (Inr (token c), m, []))"

text \<open>
  The calls of \<^verbatim>\<open>get_token\<close> that concurrent requests make on the one manager. The route
  is a coroutine that calls the synchronous \<^verbatim>\<open>get_token\<close> without awaiting anything in
  between, and \<^verbatim>\<open>get_token\<close> awaits nothing itself and takes no lock: the calls of N
  callers happen one after another, in some order, each in the world of its moment and on
  the manager that the call before it left.
\<close>

fun get_token_calls ::
  "'j world list \<Rightarrow> manager \<Rightarrow> (exn + string option) list \<times> manager \<times> 'j event list" where
  "get_token_calls [] m = ([], m, [])"
| "get_token_calls (w # ws) m =
     (case get_token w m of
        (r, m', t) \<Rightarrow>
          (case get_token_calls ws m' of
             (rs, m'', ts) \<Rightarrow> (r # rs, m'', t @ ts)))"

section \<open>The route: \<^verbatim>\<open>proxy_vertex_predict\<close>\<close>

text \<open>An f-string field holding a value that may be \<open>None\<close>.\<close>

fun fstr :: "string option \<Rightarrow> string" where
  "fstr None = ''None''"
| "fstr (Some s) = s"

text \<open>Step 3 of the source: the upstream address.\<close>

definition google_url :: "'j world \<Rightarrow> string \<Rightarrow> string" where
  "google_url w model_name =
     ''https://'' @ REGION w @ ''-aiplatform.googleapis.com/v1/projects/'' @ PROJECT_ID w
       @ ''/locations/'' @ REGION w @ ''/publishers/google/models/'' @ model_name
       @ '':predict''"

text \<open>Steps 6 and 7 of the source: log the upstream's status, then parse its body and
  render the parsed value in a \<^verbatim>\<open>JSONResponse\<close> with the upstream's status code.\<close>

definition relay :: "'j world \<Rightarrow> httpx_response \<Rightarrow> (exn + client_response) \<times> 'j event list" where
  "relay w response =
     (let logged =
            Log (LogInfo (''Google response status: '' @ show_nat (status_code response)))
            # (if status_code response \<ge> 400
               then [Log (LogError (''Upstream Error Body: '' @ content response))]
               else [])
      in case json_loads w (content response) of
           Inl e \<Rightarrow> (Inl e, logged @ [Stage Relay])
         | Inr parsed \<Rightarrow>
             (case json_dumps w parsed of
                Inl e \<Rightarrow> (Inl e, logged @ [Stage Relay])
              | Inr rendered \<Rightarrow>
                  (Inr (JSONResponse rendered (status_code response)),
                   logged @ [Stage Relay])))"

text \<open>
  Steps 1 to 5 of the source, entered with the key that the dependency returned: read
  the caller's JSON body, write the audit line, build the upstream address, get the
  token and send the POST. The result is the upstream's response, or the exception that
  ends the request here. An exception that no \<^verbatim>\<open>except\<close> clause of the source catches
  leaves the function as it is (\<open>Inl e\<close>); the ones it catches become an
  \<open>HTTPException\<close>.
\<close>

definition forward_request ::
  "'j world \<Rightarrow> (string \<times> client_info) list \<Rightarrow> manager \<Rightarrow> string \<Rightarrow> request \<Rightarrow> string
     \<Rightarrow> (exn + httpx_response) \<times> manager \<times> 'j event list" where
  "forward_request w keys m model_name req api_key =
     (case json_loads w (raw_body req) of
        Inl (JSONDecodeError msg) \<Rightarrow>
          (Inl (HTTPException 400 ''Invalid JSON body''), m, [Stage ParseBody])
      | Inl e \<Rightarrow> (Inl e, m, [Stage ParseBody])
      | Inr client_payload \<Rightarrow>
          (case map_of keys api_key of
             None \<Rightarrow> (Inl (KeyError api_key), m, [Stage ParseBody])
           | Some info \<Rightarrow>
               (let t2 = [Stage ParseBody,
                          Log (LogInfo (''Proxying request for model: '' @ model_name
                                         @ '' by user: '' @ name info)),
                          Stage BuildTarget];
                    url = google_url w model_name
                in case get_token w m of
                     (Inl e, m', tt) \<Rightarrow>
                       (Inl (HTTPException 500 ''Internal Server Error: GCP Auth Failed''), m',
                        t2 @ Stage FetchToken # tt
                          @ [Log (LogError (''Token generation failed: '' @ exn_str e))])
                   | (Inr gcp_token, m', tt) \<Rightarrow>
                       (let hdrs = [(''Authorization'', ''Bearer '' @ fstr gcp_token),
                                    (''Content-Type'', ''application/json'')];
                            t5 = t2 @ Stage FetchToken # tt
                                   @ [Stage Forward, UpstreamPost url client_payload hdrs]
                        in case http_post w url client_payload hdrs of
                             Inl (RequestError msg) \<Rightarrow>
                               (Inl (HTTPException 502
                                       (''Upstream connection failed: '' @ msg)), m',
                                t5 @ [Log (LogError (''Request to Google failed: '' @ msg))])
                           | Inl e \<Rightarrow> (Inl e, m', t5)
                           | Inr response \<Rightarrow> (Inr response, m', t5)))))"

text \<open>The body of the route: steps 1 to 5, then steps 6 and 7 on the response received.\<close>

definition proxy_vertex_predict ::
  "'j world \<Rightarrow> (string \<times> client_info) list \<Rightarrow> manager \<Rightarrow> string \<Rightarrow> request \<Rightarrow> string
     \<Rightarrow> (exn + client_response) \<times> manager \<times> 'j event list" where
  "proxy_vertex_predict w keys m model_name req api_key =
     (case forward_request w keys m model_name req api_key of
        (Inl e, m', t) \<Rightarrow> (Inl e, m', t)
      | (Inr response, m', t) \<Rightarrow>
          (case relay w response of
             (r, t7) \<Rightarrow> (r, m', t @ t7)))"

text \<open>
  A request to \<^verbatim>\<open>POST /v1/vertex/{model_name}:predict\<close>: the framework runs the
  dependency \<^verbatim>\<open>verify_api_key\<close> first and calls the route only with the key it returned.
\<close>

definition handle_request ::
  "'j world \<Rightarrow> (string \<times> client_info) list \<Rightarrow> manager \<Rightarrow> string \<Rightarrow> request
     \<Rightarrow> (exn + client_response) \<times> manager \<times> 'j event list" where
  "handle_request w keys m model_name req =
     (case verify_api_key keys req of
        (Inl e, ta) \<Rightarrow> (Inl e, m, Stage Authenticate # map Log ta)
      | (Inr api_key, ta) \<Rightarrow>
          (case proxy_vertex_predict w keys m model_name req api_key of
             (r, m', t) \<Rightarrow> (r, m', Stage Authenticate # map Log ta @ t)))"

text \<open>The upstream response that a request receives, if its run gets that far.\<close>

definition upstream_response ::
  "'j world \<Rightarrow> (string \<times> client_info) list \<Rightarrow> manager \<Rightarrow> string \<Rightarrow> request
     \<Rightarrow> httpx_response option" where
  "upstream_response w keys m model_name req =
     (case fst (verify_api_key keys req) of
        Inl e \<Rightarrow> None
      | Inr api_key \<Rightarrow>
          (case fst (forward_request w keys m model_name req api_key) of
             Inl e \<Rightarrow> None
           | Inr response \<Rightarrow> Some response))"

section \<open>A JSON library for concrete runs\<close>

text \<open>
  The theorems about the handler hold for every parser and renderer. To run the handler
  on concrete requests, this section gives a parser and a compact renderer for the JSON
  texts made of ASCII bytes whose numbers are integers, following the grammar and the
  results of the standard library's \<^verbatim>\<open>json.loads\<close> and of
  \<^verbatim>\<open>json.dumps(..., ensure_ascii=False, separators=(",", ":"))\<close>. A text outside this
  fragment (a byte outside 1..127, a number with a fraction or an exponent, \<^verbatim>\<open>NaN\<close> and
  the infinities, a \<^verbatim>\<open>\u\<close> escape, nesting deeper than 100, an integer of more than 4300
  digits) is reported as \<open>NotModelled\<close>: nothing is said about it.
\<close>

datatype json =
    JNull
  | JBool bool
  | JInt int
  | JStr string
  | JArr "json list"
  | JObj "(string \<times> json) list"

text \<open>The three results of reading a text: a value, the library's decoding error, or a
  text outside the modelled fragment.\<close>

datatype 'a parsed = Parsed 'a | Malformed | NotModelled

subsection \<open>From bytes to tokens\<close>

datatype token =
    TLBrace | TRBrace | TLBrack | TRBrack | TComma | TColon
  | TStr string | TInt int | TTrue | TFalse | TNull

definition is_ws :: "char \<Rightarrow> bool" where
  "is_ws c = (c \<in> set [CHR '' '', CHR 0x09, CHR 0x0A, CHR 0x0D])"

definition is_digit :: "char \<Rightarrow> bool" where
  "is_digit c = (c \<in> set ''0123456789'')"

definition digit_val :: "char \<Rightarrow> nat" where
  "digit_val c = length (takeWhile (\<lambda>d. d \<noteq> c) ''0123456789'')"

fun nat_of_digits :: "nat \<Rightarrow> string \<Rightarrow> nat" where
  "nat_of_digits acc [] = acc"
| "nat_of_digits acc (d # ds) = nat_of_digits (10 * acc + digit_val d) ds"

text \<open>The character after a backslash inside a string.\<close>

definition unescape :: "char \<Rightarrow> char parsed" where
  "unescape c =
     (if c = CHR 0x22 then Parsed (CHR 0x22)
      else if c = CHR 0x5C then Parsed (CHR 0x5C)
      else if c = CHR ''/'' then Parsed (CHR ''/'')
      else if c = CHR ''b'' then Parsed (CHR 0x08)
      else if c = CHR ''f'' then Parsed (CHR 0x0C)
      else if c = CHR ''n'' then Parsed (CHR 0x0A)
      else if c = CHR ''r'' then Parsed (CHR 0x0D)
      else if c = CHR ''t'' then Parsed (CHR 0x09)
      else if c = CHR ''u'' then NotModelled
      else Malformed)"

text \<open>The rest of a string after its opening quote: the characters read so far, then the
  input. An unescaped control character and a missing closing quote are errors. The result
  is the string and the input after the closing quote.\<close>

fun scan_string :: "string \<Rightarrow> string \<Rightarrow> (string \<times> string) parsed" where
  "scan_string acc [] = Malformed"
| "scan_string acc [c] =
     (if c = CHR 0x22 then Parsed (acc, []) else Malformed)"
| "scan_string acc (c # d # cs) =
     (if c = CHR 0x22 then Parsed (acc, d # cs)
      else if c = CHR 0x5C then
        (case unescape d of
           Parsed e \<Rightarrow> scan_string (acc @ [e]) cs
         | Malformed \<Rightarrow> Malformed
         | NotModelled \<Rightarrow> NotModelled)
      else if (of_char c :: nat) < 32 then Malformed
      else scan_string (acc @ [c]) (d # cs))"

text \<open>A number: an optional minus sign, then \<^verbatim>\<open>0\<close> or a digit string without a leading
  zero. A fraction or an exponent after it makes it a float, which is not modelled.\<close>

definition is_float_tail :: "string \<Rightarrow> bool" where
  "is_float_tail cs =
     (case cs of
        c # d # ds \<Rightarrow>
          (c = CHR ''.'' \<and> is_digit d)
          \<or> (c \<in> set ''eE'' \<and> (is_digit d \<or> (d \<in> set ''+-'' \<and> (case ds of [] \<Rightarrow> False | e # _ \<Rightarrow> is_digit e))))
      | _ \<Rightarrow> False)"

definition scan_number :: "string \<Rightarrow> (int \<times> string) parsed" where
  "scan_number cs =
     (let neg = (case cs of [] \<Rightarrow> False | c # _ \<Rightarrow> c = CHR ''-'');
          ds = (if neg then tl cs else cs);
          digits = takeWhile is_digit ds;
          ipart = (if digits \<noteq> [] \<and> hd digits = CHR ''0'' then ''0'' else digits);
          rest = drop (length ipart) ds
      in if ipart = [] then (if startswith cs ''-Infinity'' then NotModelled else Malformed)
         else if is_float_tail rest \<or> length ipart > 4300 then NotModelled
         else Parsed (if neg then - int (nat_of_digits 0 ipart) else int (nat_of_digits 0 ipart), rest))"

fun cons_token :: "token \<Rightarrow> token list parsed \<Rightarrow> token list parsed" where
  "cons_token t (Parsed ts) = Parsed (t # ts)"
| "cons_token t Malformed = Malformed"
| "cons_token t NotModelled = NotModelled"

text \<open>The tokens of a text, with the white space between them dropped.\<close>

function lex :: "string \<Rightarrow> token list parsed" where
  "lex [] = Parsed []"
| "lex (c # cs) =
     (if is_ws c then lex cs
      else if c = CHR ''{'' then cons_token TLBrace (lex cs)
      else if c = CHR ''}'' then cons_token TRBrace (lex cs)
      else if c = CHR ''['' then cons_token TLBrack (lex cs)
      else if c = CHR '']'' then cons_token TRBrack (lex cs)
      else if c = CHR '','' then cons_token TComma (lex cs)
      else if c = CHR '':'' then cons_token TColon (lex cs)
      else if c = CHR 0x22 then
        (case scan_string [] cs of
           Parsed (s, rest) \<Rightarrow> cons_token (TStr s) (lex rest)
         | Malformed \<Rightarrow> Malformed
         | NotModelled \<Rightarrow> NotModelled)
      else if c = CHR ''-'' \<or> is_digit c then
        (case scan_number (c # cs) of
           Parsed (n, rest) \<Rightarrow> cons_token (TInt n) (lex rest)
         | Malformed \<Rightarrow> Malformed
         | NotModelled \<Rightarrow> NotModelled)
      else if startswith (c # cs) ''null'' then cons_token TNull (lex (drop 3 cs))
      else if startswith (c # cs) ''true'' then cons_token TTrue (lex (drop 3 cs))
      else if startswith (c # cs) ''false'' then cons_token TFalse (lex (drop 4 cs))
      else if startswith (c # cs) ''NaN'' \<or> startswith (c # cs) ''Infinity'' then NotModelled
      else Malformed)"
  by pat_completeness auto
termination
proof (relation "measure length", goal_cases)
  have scan_string_shorter: "length rest < length cs"
    if "scan_string acc cs = Parsed (s, rest)" for acc cs s rest
    using that
  proof (induction acc cs rule: scan_string.induct)
    case (1 acc)
    then show ?case by simp
  next
    case (2 acc c)
    then show ?case by (simp split: if_splits)
  next
    case (3 acc c d cs)
    show ?case
    proof (cases "c = CHR 0x22")
      case True
      with 3(3) show ?thesis by simp
    next
      case nq: False
      show ?thesis
      proof (cases "c = CHR 0x5C")
        case True
        with nq 3(3) obtain e where
          "unescape d = Parsed e" "scan_string (acc @ [e]) cs = Parsed (s, rest)"
          by (cases "unescape d") simp_all
        with 3(1) [OF nq True] show ?thesis by fastforce
      next
        case nb: False
        with nq 3(3) have
          "\<not> (of_char c :: nat) < 32" "scan_string (acc @ [c]) (d # cs) = Parsed (s, rest)"
          by (simp_all split: if_splits)
        with 3(2) [OF nq nb] show ?thesis by simp
      qed
    qed
  qed
  have scan_number_shorter: "length rest < length cs"
    if "scan_number cs = Parsed (n, rest)" for cs n rest
  proof -
    define ds where
      "ds = (if (case cs of [] \<Rightarrow> False | c # _ \<Rightarrow> c = CHR ''-'') then tl cs else cs)"
    define ipart where
      "ipart = (if takeWhile is_digit ds \<noteq> [] \<and> hd (takeWhile is_digit ds) = CHR ''0''
                then ''0'' else takeWhile is_digit ds)"
    from that have ne: "ipart \<noteq> []" and r: "rest = drop (length ipart) ds"
      unfolding scan_number_def Let_def ds_def [symmetric] ipart_def [symmetric]
      by (auto split: if_splits)
    have "length ipart \<le> length (takeWhile is_digit ds)"
      unfolding ipart_def by (cases "takeWhile is_digit ds") auto
    also have "\<dots> \<le> length ds" by (rule length_takeWhile_le)
    finally have le: "length ipart \<le> length ds" .
    have "length ds \<le> length cs" unfolding ds_def by simp
    moreover from ne le have "length rest < length ds" unfolding r by (cases ipart) auto
    ultimately show ?thesis by simp
  qed
  {
    case 1
    show ?case by simp
  next
    case (9 c cs x1 x y)
    with scan_string_shorter [of "[]" cs x y] show ?case by simp
  next
    case (10 c cs x1 x y)
    with scan_number_shorter [of "c # cs" x y] show ?case by simp
  }
qed simp_all

declare lex.simps [simp del]

subsection \<open>From tokens to a value\<close>

text \<open>\<^verbatim>\<open>d[k] = v\<close> on a dictionary kept in insertion order: a key that is present keeps its
  place and takes the new value.\<close>

fun dict_setitem :: "(string \<times> 'v) list \<Rightarrow> string \<Rightarrow> 'v \<Rightarrow> (string \<times> 'v) list" where
  "dict_setitem [] k v = [(k, v)]"
| "dict_setitem ((k', v') # d) k v =
     (if k' = k then (k', v) # d else (k', v') # dict_setitem d k v)"

text \<open>
  The parser reads the tokens from left to right with a stack of the arrays and objects
  that are open: an array with its elements so far, an object with its members so far and
  the key that waits for its value. The mode says what may come next: a value, a value or
  \<^verbatim>\<open>]\<close> right after \<^verbatim>\<open>[\<close>, a key or \<^verbatim>\<open>}\<close> right after \<^verbatim>\<open>{\<close>, a key after a comma, the
  colon after a key, a comma or a closing bracket after a value, or nothing more once the
  outermost value is complete.
\<close>

datatype frame = ArrF "json list" | ObjF "(string \<times> json) list" "string option"

datatype mode = MValue | MFirst | MKeyFirst | MKey | MColon | MAfter | MDone json

fun atom :: "token \<Rightarrow> json option" where
  "atom (TStr s) = Some (JStr s)"
| "atom (TInt n) = Some (JInt n)"
| "atom TTrue = Some (JBool True)"
| "atom TFalse = Some (JBool False)"
| "atom TNull = Some JNull"
| "atom _ = None"

fun close_value :: "json \<Rightarrow> frame list \<Rightarrow> (mode \<times> frame list) option" where
  "close_value v [] = Some (MDone v, [])"
| "close_value v (ArrF es # st) = Some (MAfter, ArrF (es @ [v]) # st)"
| "close_value v (ObjF ps (Some k) # st) = Some (MAfter, ObjF (dict_setitem ps k v) None # st)"
| "close_value v (ObjF ps None # st) = None"

fun open_value :: "token \<Rightarrow> frame list \<Rightarrow> (mode \<times> frame list) option" where
  "open_value TLBrack st = Some (MFirst, ArrF [] # st)"
| "open_value TLBrace st = Some (MKeyFirst, ObjF [] None # st)"
| "open_value t st = (case atom t of None \<Rightarrow> None | Some v \<Rightarrow> close_value v st)"

fun step :: "mode \<Rightarrow> frame list \<Rightarrow> token \<Rightarrow> (mode \<times> frame list) option" where
  "step MValue st t = open_value t st"
| "step MFirst (ArrF es # st) TRBrack = close_value (JArr es) st"
| "step MFirst st t = open_value t st"
| "step MKeyFirst (ObjF ps None # st) TRBrace = close_value (JObj ps) st"
| "step MKeyFirst (ObjF ps None # st) (TStr k) = Some (MColon, ObjF ps (Some k) # st)"
| "step MKey (ObjF ps None # st) (TStr k) = Some (MColon, ObjF ps (Some k) # st)"
| "step MColon st TColon = Some (MValue, st)"
| "step MAfter (ArrF es # st) TComma = Some (MValue, ArrF es # st)"
| "step MAfter (ArrF es # st) TRBrack = close_value (JArr es) st"
| "step MAfter (ObjF ps None # st) TComma = Some (MKey, ObjF ps None # st)"
| "step MAfter (ObjF ps None # st) TRBrace = close_value (JObj ps) st"
| "step _ _ _ = None"

fun run :: "mode \<Rightarrow> frame list \<Rightarrow> token list \<Rightarrow> json parsed" where
  "run (MDone v) st [] = Parsed v"
| "run m st [] = Malformed"
| "run m st (t # ts) =
     (case step m st t of
        None \<Rightarrow> Malformed
      | Some (m', st') \<Rightarrow> if length st' > 100 then NotModelled else run m' st' ts)"

subsection \<open>Bytes that are no text\<close>

text \<open>
  \<^verbatim>\<open>json.loads\<close> decodes the bytes before it parses them, and a text that cannot be
  decoded raises \<^verbatim>\<open>UnicodeDecodeError\<close>, which is not a \<^verbatim>\<open>JSONDecodeError\<close>. The bytes
  are taken as UTF-8 unless they begin with a UTF-16 or UTF-32 byte order mark or have a
  zero byte among the first four. \<open>undecodable\<close> holds for texts that are surely taken
  as UTF-8 (no zero byte at all, no byte order mark of UTF-16) and surely are not UTF-8:
  they have one of the bytes C0, C1, F5 to FF, which no UTF-8 text has.
\<close>

definition never_in_utf8 :: "char \<Rightarrow> bool" where
  "never_in_utf8 c =
     ((of_char c :: nat) = 192 \<or> (of_char c :: nat) = 193 \<or> (of_char c :: nat) \<ge> 245)"

definition undecodable :: "string \<Rightarrow> bool" where
  "undecodable s =
     (CHR 0x00 \<notin> set s
      \<and> \<not> startswith s [CHR 0xFF, CHR 0xFE] \<and> \<not> startswith s [CHR 0xFE, CHR 0xFF]
      \<and> (\<exists>c \<in> set s. never_in_utf8 c))"

subsection \<open>The parser\<close>

definition ascii :: "string \<Rightarrow> bool" where
  "ascii s = (\<forall>c \<in> set s. 0 < (of_char c :: nat) \<and> (of_char c :: nat) < 128)"

definition py_json_loads :: "string \<Rightarrow> json parsed" where
  "py_json_loads s =
     (if \<not> ascii s then NotModelled
      else (case lex s of
              Parsed ts \<Rightarrow> run MValue [] ts
            | Malformed \<Rightarrow> Malformed
            | NotModelled \<Rightarrow> NotModelled))"

subsection \<open>From a value to bytes\<close>

definition show_int :: "int \<Rightarrow> string" where
  "show_int i = (if i < 0 then CHR ''-'' # show_nat (nat (- i)) else show_nat (nat i))"

definition hex4 :: "nat \<Rightarrow> string" where
  "hex4 n = map (\<lambda>k. ''0123456789abcdef'' ! ((n div 16 ^ k) mod 16)) [3, 2, 1, 0]"

text \<open>The escapes of the renderer: the quote, the backslash and the control characters.\<close>

definition escape_char :: "char \<Rightarrow> string" where
  "escape_char c =
     (if c = CHR 0x22 then [CHR 0x5C, CHR 0x22]
      else if c = CHR 0x5C then [CHR 0x5C, CHR 0x5C]
      else if c = CHR 0x0A then [CHR 0x5C, CHR ''n'']
      else if c = CHR 0x0D then [CHR 0x5C, CHR ''r'']
      else if c = CHR 0x09 then [CHR 0x5C, CHR ''t'']
      else if c = CHR 0x08 then [CHR 0x5C, CHR ''b'']
      else if c = CHR 0x0C then [CHR 0x5C, CHR ''f'']
      else if (of_char c :: nat) < 32 then [CHR 0x5C, CHR ''u''] @ hex4 (of_char c)
      else [c])"

definition encode_str :: "string \<Rightarrow> string" where
  "encode_str s = CHR 0x22 # concat (map escape_char s) @ [CHR 0x22]"

fun join :: "string \<Rightarrow> string list \<Rightarrow> string" where
  "join sep [] = []"
| "join sep [x] = x"
| "join sep (x # y # ys) = x @ sep @ join sep (y # ys)"

fun render :: "json \<Rightarrow> string" where
  "render JNull = ''null''"
| "render (JBool b) = (if b then ''true'' else ''false'')"
| "render (JInt i) = show_int i"
| "render (JStr s) = encode_str s"
| "render (JArr vs) = ''['' @ join '','' (map render vs) @ '']''"
| "render (JObj ps) =
     ''{'' @ join '','' (map (\<lambda>(k, v). encode_str k @ '':'' @ render v) ps) @ ''}''"

fun renderable :: "json \<Rightarrow> bool" where
  "renderable JNull = True"
| "renderable (JBool b) = True"
| "renderable (JInt i) = (length (show_int i) \<le> 4300)"
| "renderable (JStr s) = ascii s"
| "renderable (JArr vs) = (\<forall>v \<in> set vs. renderable v)"
| "renderable (JObj ps) = (\<forall>(k, v) \<in> set ps. ascii k \<and> renderable v)"

definition py_json_dumps :: "json \<Rightarrow> string option" where
  "py_json_dumps v = (if renderable v then Some (render v) else None)"

section \<open>Reading a trace\<close>

fun stages_of :: "'j event list \<Rightarrow> stage list" where
  "stages_of [] = []"
| "stages_of (Stage s # t) = s # stages_of t"
| "stages_of (e # t) = stages_of t"

fun posts_of :: "'j event list \<Rightarrow> (string \<times> 'j \<times> (string \<times> string) list) list" where
  "posts_of [] = []"
| "posts_of (UpstreamPost url payload hdrs # t) = (url, payload, hdrs) # posts_of t"
| "posts_of (e # t) = posts_of t"

fun refreshes :: "'j event list \<Rightarrow> nat" where
  "refreshes [] = 0"
| "refreshes (RefreshRoundTrip # t) = Suc (refreshes t)"
| "refreshes (e # t) = refreshes t"

text \<open>The order in which the source starts the stages (its steps 1 to 7, after the
  dependency), and the order that the specification's description of the handler gives.\<close>

definition source_stage_order :: "stage list" where
  "source_stage_order = [Authenticate, ParseBody, BuildTarget, FetchToken, Forward, Relay]"

definition spec_stage_order :: "stage list" where
  "spec_stage_order = [Authenticate, ParseBody, FetchToken, BuildTarget, Forward, Relay]"

definition is_prefix :: "'a list \<Rightarrow> 'a list \<Rightarrow> bool" where
  "is_prefix xs ys = (take (length xs) ys = xs)"

section \<open>Concrete worlds\<close>

text \<open>
  The worlds in which the theorems are run on concrete requests: the JSON library of the
  section above, a clock at 1000 seconds at both readings, the library's threshold of 225
  seconds, an
  identity provider that answers \<open>grant\<close> and a stub upstream that answers \<open>upstream\<close>
  to every POST. Texts that are neither undecodable nor in the modelled JSON fragment do
  not occur in these runs, and
  the text of a decoding error, which depends on the place of the error, is not modelled:
  \<open>decode_error_text\<close> stands for it.
\<close>

definition decode_error_text :: string where
  "decode_error_text = ''(the text of the decoding error)''"

definition stub_json_loads :: "string \<Rightarrow> exn + json" where
  "stub_json_loads s =
     (if undecodable s then Inl (UnicodeDecodeError decode_error_text)
      else (case py_json_loads s of
              Parsed v \<Rightarrow> Inr v
            | Malformed \<Rightarrow> Inl (JSONDecodeError decode_error_text)
            | NotModelled \<Rightarrow> Inl (OtherException ''outside the modelled fragment'')))"

definition stub_json_dumps :: "json \<Rightarrow> exn + string" where
  "stub_json_dumps v =
     (case py_json_dumps v of
        Some s \<Rightarrow> Inr s
      | None \<Rightarrow> Inl (OtherException ''outside the modelled fragment''))"

definition stub_world :: "exn + string \<times> int \<Rightarrow> exn + httpx_response \<Rightarrow> json world" where
  "stub_world grant upstream =
     \<lparr>PROJECT_ID = ''your-project-id'', REGION = ''us-central1'', now = 1000,
      now_again = 1000, REFRESH_THRESHOLD = 225, jwt_grant = grant,
      json_loads = stub_json_loads, json_dumps = stub_json_dumps,
      http_post = (\<lambda>url payload hdrs. upstream)\<rparr>"

definition later_world :: "exn + string \<times> int \<Rightarrow> exn + httpx_response \<Rightarrow> json world" where
  "later_world grant upstream = (stub_world grant upstream)\<lparr>now := 1060, now_again := 1060\<rparr>"

text \<open>A world whose clock passes, between the two readings of \<^verbatim>\<open>get_token\<close>, the moment
  225 seconds before 3600.\<close>

definition margin_world :: "exn + string \<times> int \<Rightarrow> exn + httpx_response \<Rightarrow> json world" where
  "margin_world grant upstream = (stub_world grant upstream)\<lparr>now := 3374, now_again := 3375\<rparr>"

definition scenario_request :: request where
  \<open>scenario_request =
     \<lparr>authorization = Some ''Bearer sk-client-veo-001'',
      raw_body = ''{"instances":[{"prompt":"hi"}]}''\<rparr>\<close>

definition degraded_manager :: manager where
  "degraded_manager = \<lparr>creds = None\<rparr>"

definition loaded_manager :: manager where
  "loaded_manager = \<lparr>creds = Some \<lparr>token = None, expiry = None\<rparr>\<rparr>"

definition cached_manager :: manager where
  "cached_manager = \<lparr>creds = Some \<lparr>token = Some ''ya29.cached'', expiry = Some 3600\<rparr>\<rparr>"

definition stale_manager :: manager where
  "stale_manager = \<lparr>creds = Some \<lparr>token = Some ''ya29.stale'', expiry = Some 900\<rparr>\<rparr>"

section \<open>Facts about the parts\<close>

lemma stages_of_append [simp]: "stages_of (a @ b) = stages_of a @ stages_of b"
  by (induction a rule: stages_of.induct) simp_all

lemma posts_of_append [simp]: "posts_of (a @ b) = posts_of a @ posts_of b"
  by (induction a rule: posts_of.induct) simp_all

lemma refreshes_append [simp]: "refreshes (a @ b) = refreshes a + refreshes b"
  by (induction a rule: refreshes.induct) simp_all

lemma stages_of_logs [simp]: "stages_of (map Log ls) = []"
  by (induction ls) simp_all

lemma posts_of_logs [simp]: "posts_of (map Log ls) = []"
  by (induction ls) simp_all

lemma refreshes_logs [simp]: "refreshes (map Log ls) = 0"
  by (induction ls) simp_all

lemma str_split_nonempty: "str_split sep s \<noteq> []"
  by (induction s) (auto split: list.splits)

lemma str_split_hd: "hd (str_split sep s) = takeWhile (\<lambda>c. c \<noteq> sep) s"
  by (induction s) (auto split: list.splits simp: str_split_nonempty)

lemma str_split_bearer:
  assumes "startswith h ''Bearer ''"
  shows "list_get (str_split CHR '' '' h) (Suc 0)
           = Inr (takeWhile (\<lambda>c. c \<noteq> CHR '' '') (drop 7 h))"
proof -
  have l: "length ''Bearer '' = 7" by simp
  from assms have "take 7 h = ''Bearer ''"
    unfolding startswith_def l .
  then have h: "h = ''Bearer '' @ drop 7 h"
    using append_take_drop_id [of 7 h] by simp
  obtain w ws where ws: "str_split CHR '' '' (drop 7 h) = w # ws"
    using str_split_nonempty by (cases "str_split CHR '' '' (drop 7 h)") auto
  have w: "w = takeWhile (\<lambda>c. c \<noteq> CHR '' '') (drop 7 h)"
    using str_split_hd [of "CHR '' ''" "drop 7 h"] ws by simp
  have "str_split CHR '' '' (''Bearer '' @ drop 7 h) = ''Bearer'' # w # ws"
    by (simp add: ws)
  with h have "str_split CHR '' '' h = ''Bearer'' # w # ws" by simp
  then show ?thesis by (simp add: list_get_def w)
qed

text \<open>The key that the dependency extracts from a header of the accepted form.\<close>

lemma verify_api_key_bearer:
  assumes "authorization req = Some h" "startswith h ''Bearer ''"
  shows "verify_api_key keys req =
           (let api_key = takeWhile (\<lambda>c. c \<noteq> CHR '' '') (drop 7 h)
            in case map_of keys api_key of
                 None \<Rightarrow> (Inl (HTTPException 401 ''Invalid API Key''),
                           [LogWarning (''Unauthorized access attempt with key: ''
                                         @ take 8 api_key @ ''***'')])
               | Some info \<Rightarrow>
                   if active info then (Inr api_key, [])
                   else (Inl (HTTPException 403 ''API Key is inactive''), []))"
proof -
  from assms(2) have ne: "h \<noteq> []" by (auto simp: startswith_def)
  with assms show ?thesis
    by (simp add: verify_api_key_def str_split_bearer Let_def split: option.splits)
qed

lemma verify_api_key_no_header:
  assumes "authorization req = None \<or> (\<exists>h. authorization req = Some h \<and> \<not> startswith h ''Bearer '')"
  shows "verify_api_key keys req
           = (Inl (HTTPException 401 ''Missing or invalid Authorization header''), [])"
  using assms by (auto simp: verify_api_key_def)

lemma verify_api_key_Inr:
  assumes "fst (verify_api_key keys req) = Inr k"
  shows "\<exists>info. map_of keys k = Some info \<and> active info \<and> verify_api_key keys req = (Inr k, [])"
proof (cases "authorization req")
  case None
  with assms show ?thesis by (simp add: verify_api_key_no_header)
next
  case (Some h)
  show ?thesis
  proof (cases "startswith h ''Bearer ''")
    case False
    with Some assms show ?thesis by (simp add: verify_api_key_no_header)
  next
    case True
    from assms show ?thesis
      unfolding verify_api_key_bearer [OF Some True] Let_def
      by (auto split: option.splits if_splits)
  qed
qed

lemma verify_api_key_Inl:
  assumes "fst (verify_api_key keys req) = Inl e"
  shows "e = HTTPException 401 ''Missing or invalid Authorization header''
         \<or> e = HTTPException 401 ''Invalid API Key''
         \<or> e = HTTPException 403 ''API Key is inactive''"
proof (cases "authorization req")
  case None
  with assms show ?thesis by (simp add: verify_api_key_no_header)
next
  case (Some h)
  show ?thesis
  proof (cases "startswith h ''Bearer ''")
    case False
    with Some assms show ?thesis by (simp add: verify_api_key_no_header)
  next
    case True
    from assms show ?thesis
      unfolding verify_api_key_bearer [OF Some True] Let_def
      by (auto split: option.splits if_splits)
  qed
qed

lemma get_token_trace:
  "stages_of (snd (snd (get_token w m))) = [] \<and> posts_of (snd (snd (get_token w m))) = []"
  by (simp add: get_token_def split: option.splits sum.splits)

lemma get_token_refreshes:
  "refreshes (snd (snd (get_token w m)))
     = (case creds m of
          None \<Rightarrow> 0
        | Some c \<Rightarrow> if valid w c \<and> \<not> expired w c then 0 else 1)"
  by (simp add: get_token_def split: option.splits sum.splits)

lemma relay_trace:
  "stages_of (snd (relay w r)) = [Relay] \<and> posts_of (snd (relay w r)) = []
     \<and> refreshes (snd (relay w r)) = 0"
  by (simp add: relay_def Let_def split: sum.splits)

lemma handle_request_auth_fail:
  assumes "fst (verify_api_key keys req) = Inl e"
  shows "handle_request w keys m model req
           = (Inl e, m, Stage Authenticate # map Log (snd (verify_api_key keys req)))"
  using assms by (cases "verify_api_key keys req") (simp add: handle_request_def)

lemma handle_request_authed:
  assumes "fst (verify_api_key keys req) = Inr k"
  shows "handle_request w keys m model req
           = (case proxy_vertex_predict w keys m model req k of
                (r, m', t) \<Rightarrow> (r, m', Stage Authenticate # t))"
  using verify_api_key_Inr [OF assms] by (auto simp: handle_request_def)

lemma forward_request_parse_fail:
  assumes "json_loads w (raw_body req) = Inl e"
  shows "forward_request w keys m model req k
           = (Inl (case e of JSONDecodeError msg \<Rightarrow> HTTPException 400 ''Invalid JSON body''
                           | _ \<Rightarrow> e), m, [Stage ParseBody])"
  using assms by (simp add: forward_request_def split: exn.splits)

lemma forward_request_token_fail:
  assumes "json_loads w (raw_body req) = Inr p" "map_of keys k = Some info"
    and "get_token w m = (Inl e, m', tt)"
  shows "forward_request w keys m model req k
           = (Inl (HTTPException 500 ''Internal Server Error: GCP Auth Failed''), m',
              [Stage ParseBody,
               Log (LogInfo (''Proxying request for model: '' @ model
                              @ '' by user: '' @ name info)),
               Stage BuildTarget, Stage FetchToken] @ tt
                @ [Log (LogError (''Token generation failed: '' @ exn_str e))])"
  using assms by (simp add: forward_request_def)

lemma forward_request_post:
  assumes "json_loads w (raw_body req) = Inr p" "map_of keys k = Some info"
    and "get_token w m = (Inr tok, m', tt)"
  shows "forward_request w keys m model req k
           = (let hdrs = [(''Authorization'', ''Bearer '' @ fstr tok),
                          (''Content-Type'', ''application/json'')];
                  url = google_url w model;
                  t5 = [Stage ParseBody,
                        Log (LogInfo (''Proxying request for model: '' @ model
                                       @ '' by user: '' @ name info)),
                        Stage BuildTarget, Stage FetchToken] @ tt
                         @ [Stage Forward, UpstreamPost url p hdrs]
              in case http_post w url p hdrs of
                   Inl e \<Rightarrow>
                     (case e of
                        RequestError msg \<Rightarrow>
                          (Inl (HTTPException 502 (''Upstream connection failed: '' @ msg)), m',
                           t5 @ [Log (LogError (''Request to Google failed: '' @ msg))])
                      | _ \<Rightarrow> (Inl e, m', t5))
                 | Inr response \<Rightarrow> (Inr response, m', t5))"
  using assms by (simp add: forward_request_def Let_def split: sum.splits exn.splits)

text \<open>Which stages a run of steps 1 to 5 starts, and what it does to the outside.\<close>

lemma forward_request_stages:
  "stages_of (snd (snd (forward_request w keys m model req k)))
     \<in> {[ParseBody], [ParseBody, BuildTarget, FetchToken],
        [ParseBody, BuildTarget, FetchToken, Forward]}"
proof (cases "json_loads w (raw_body req)")
  case (Inl e)
  then show ?thesis by (simp add: forward_request_parse_fail)
next
  case (Inr p)
  show ?thesis
  proof (cases "map_of keys k")
    case None
    with Inr show ?thesis by (simp add: forward_request_def)
  next
    case (Some info)
    obtain r m' tt where g: "get_token w m = (r, m', tt)" by (cases "get_token w m")
    with get_token_trace [of w m] have tt: "stages_of tt = []" by simp
    show ?thesis
    proof (cases r)
      case (Inl e)
      with Inr Some g tt show ?thesis by (simp add: forward_request_token_fail)
    next
      case r: (Inr tok)
      with Inr Some g tt show ?thesis
        by (simp add: forward_request_post Let_def split: sum.splits exn.splits)
    qed
  qed
qed

lemma verify_api_key_403:
  assumes "fst (verify_api_key keys req) = Inl (HTTPException 403 d)"
  shows "\<exists>k info. map_of keys k = Some info \<and> \<not> active info"
proof (cases "authorization req")
  case None
  with assms show ?thesis by (simp add: verify_api_key_no_header)
next
  case (Some h)
  show ?thesis
  proof (cases "startswith h ''Bearer ''")
    case False
    with Some assms show ?thesis by (simp add: verify_api_key_no_header)
  next
    case True
    from assms show ?thesis
      unfolding verify_api_key_bearer [OF Some True] Let_def
      by (auto split: option.splits if_splits)
  qed
qed

lemma VALID_API_KEYS_active: "map_of VALID_API_KEYS k = Some info \<Longrightarrow> active info"
  by (auto simp: VALID_API_KEYS_def split: if_splits)

lemma valid_token: "valid w c \<Longrightarrow> \<exists>t. token c = Some t"
  by (simp add: valid_def)

lemma get_token_valid:
  assumes "creds m = Some c" "valid w c" "\<not> expired w c"
  shows "get_token w m = (Inr (token c), m, [])"
  using assms by (auto simp: get_token_def)

lemma get_token_recheck_fail:
  assumes "creds m = Some c" "valid w c" "expired w c" "jwt_grant w = Inl e"
  shows "get_token w m = (Inl e, m, [Log (LogInfo ''GCP token expired, refreshing...''), RefreshRoundTrip])"
  using assms by (simp add: get_token_def refresh_def)

lemma get_token_recheck_ok:
  assumes "creds m = Some c" "valid w c" "expired w c" "jwt_grant w = Inr (tok, exp)"
  shows "get_token w m
           = (Inr (Some tok), m\<lparr>creds := Some (c\<lparr>token := Some tok, expiry := Some exp\<rparr>)\<rparr>,
              [Log (LogInfo ''GCP token expired, refreshing...''), RefreshRoundTrip])"
  using assms by (simp add: get_token_def refresh_def)

lemma get_token_refresh_fail:
  assumes "creds m = Some c" "\<not> valid w c" "jwt_grant w = Inl e"
  shows "get_token w m = (Inl e, m, [Log (LogInfo ''Refreshing GCP access token...''), RefreshRoundTrip])"
  using assms by (simp add: get_token_def refresh_def)

lemma get_token_refresh_ok:
  assumes "creds m = Some c" "\<not> valid w c" "jwt_grant w = Inr (tok, exp)"
  shows "get_token w m
           = (Inr (Some tok), m\<lparr>creds := Some (c\<lparr>token := Some tok, expiry := Some exp\<rparr>)\<rparr>,
              [Log (LogInfo ''Refreshing GCP access token...''), RefreshRoundTrip])"
  using assms by (simp add: get_token_def refresh_def)

lemma get_token_degraded:
  assumes "creds m = None"
  shows "get_token w m = (Inl (RuntimeError ''GCP Credentials not initialized''), m, [])"
  using assms by (simp add: get_token_def)


lemma proxy_vertex_predict_failed:
  assumes "forward_request w keys m model req k = (Inl e, m', t)"
  shows "proxy_vertex_predict w keys m model req k = (Inl e, m', t)"
  using assms by (simp add: proxy_vertex_predict_def)

lemma proxy_vertex_predict_received:
  assumes "forward_request w keys m model req k = (Inr resp, m', t)"
  shows "proxy_vertex_predict w keys m model req k
           = (fst (relay w resp), m', t @ snd (relay w resp))"
  using assms by (cases "relay w resp") (simp add: proxy_vertex_predict_def)

lemma forward_request_received:
  assumes "forward_request w keys m model req k = (Inr resp, m', t)"
  shows "stages_of t = [ParseBody, BuildTarget, FetchToken, Forward]
         \<and> (\<exists>p tok. json_loads w (raw_body req) = Inr p \<and> fst (get_token w m) = Inr tok
               \<and> m' = fst (snd (get_token w m))
               \<and> posts_of t = [(google_url w model, p,
                                 [(''Authorization'', ''Bearer '' @ fstr tok),
                                  (''Content-Type'', ''application/json'')])]
               \<and> http_post w (google_url w model) p
                    [(''Authorization'', ''Bearer '' @ fstr tok),
                     (''Content-Type'', ''application/json'')] = Inr resp)"
proof (cases "json_loads w (raw_body req)")
  case (Inl e)
  with assms show ?thesis by (simp add: forward_request_parse_fail)
next
  case (Inr p)
  show ?thesis
  proof (cases "map_of keys k")
    case None
    with Inr assms show ?thesis by (simp add: forward_request_def)
  next
    case (Some info)
    obtain r m1 tt where g: "get_token w m = (r, m1, tt)" by (cases "get_token w m")
    with get_token_trace [of w m] have tt: "stages_of tt = []" "posts_of tt = []" by simp_all
    show ?thesis
    proof (cases r)
      case (Inl e)
      with Inr Some g assms show ?thesis by (simp add: forward_request_token_fail)
    next
      case r: (Inr tok)
      from assms show ?thesis
        unfolding forward_request_post [OF Inr Some g [unfolded r]] Let_def
        using Inr g r tt by (auto split: sum.splits exn.splits)
    qed
  qed
qed

lemma upstream_response_Some:
  assumes "upstream_response w keys m model req = Some resp"
  shows "\<exists>k m' t. verify_api_key keys req = (Inr k, [])
           \<and> forward_request w keys m model req k = (Inr resp, m', t)"
proof -
  from assms obtain k where k: "fst (verify_api_key keys req) = Inr k"
    by (auto simp: upstream_response_def split: sum.splits)
  with assms have "fst (forward_request w keys m model req k) = Inr resp"
    by (auto simp: upstream_response_def split: sum.splits)
  then obtain m' t where "forward_request w keys m model req k = (Inr resp, m', t)"
    by (cases "forward_request w keys m model req k") auto
  with verify_api_key_Inr [OF k] show ?thesis by blast
qed

lemma handle_request_received:
  assumes "upstream_response w keys m model req = Some resp"
  shows "fst (handle_request w keys m model req) = fst (relay w resp)
         \<and> stages_of (snd (snd (handle_request w keys m model req)))
             = [Authenticate, ParseBody, BuildTarget, FetchToken, Forward, Relay]
         \<and> length (posts_of (snd (snd (handle_request w keys m model req)))) = 1"
proof -
  from upstream_response_Some [OF assms] obtain k m' t where
    v: "verify_api_key keys req = (Inr k, [])" and
    f: "forward_request w keys m model req k = (Inr resp, m', t)" by blast
  from forward_request_received [OF f] have
    st: "stages_of t = [ParseBody, BuildTarget, FetchToken, Forward]" and
    po: "length (posts_of t) = 1" by auto
  have "handle_request w keys m model req
          = (fst (relay w resp), m', Stage Authenticate # t @ snd (relay w resp))"
    using v proxy_vertex_predict_received [OF f] by (simp add: handle_request_def)
  with st po relay_trace [of w resp] show ?thesis by simp
qed

lemma handle_request_forward_failed:
  assumes "fst (verify_api_key keys req) = Inr k"
    and "forward_request w keys m model req k = (Inl e, m', t)"
  shows "handle_request w keys m model req = (Inl e, m', Stage Authenticate # t)"
  using verify_api_key_Inr [OF assms(1)] proxy_vertex_predict_failed [OF assms(2)]
  by (auto simp: handle_request_def)

lemma get_token_calls_degraded:
  "get_token_calls ws \<lparr>creds = None\<rparr>
     = (replicate (length ws) (Inl (RuntimeError ''GCP Credentials not initialized'')),
        \<lparr>creds = None\<rparr>, [])"
  by (induction ws) (simp_all add: get_token_degraded)

lemma handle_request_degraded:
  assumes "creds m = None"
  shows "posts_of (snd (snd (handle_request w keys m model req))) = []
         \<and> (\<forall>k p. fst (verify_api_key keys req) = Inr k \<and> json_loads w (raw_body req) = Inr p
               \<longrightarrow> fst (handle_request w keys m model req)
                     = Inl (HTTPException 500 ''Internal Server Error: GCP Auth Failed''))"
proof (cases "fst (verify_api_key keys req)")
  case (Inl e)
  then show ?thesis by (simp add: handle_request_auth_fail)
next
  case v: (Inr k)
  from verify_api_key_Inr [OF v] obtain info where i: "map_of keys k = Some info" by blast
  show ?thesis
  proof (cases "json_loads w (raw_body req)")
    case (Inl e)
    from handle_request_forward_failed [OF v forward_request_parse_fail [OF Inl]] Inl
    show ?thesis by simp
  next
    case j: (Inr p)
    note g = get_token_degraded [OF assms, of w]
    from handle_request_forward_failed [OF v forward_request_token_fail [OF j i g]] v j
    show ?thesis by simp
  qed
qed

lemma upstream_response_forward:
  assumes "fst (verify_api_key keys req) = Inr k"
    and "forward_request w keys m model req k = (Inr resp, m', t)"
  shows "upstream_response w keys m model req = Some resp"
  using assms by (simp add: upstream_response_def)

lemma forward_request_post_fail:
  assumes "json_loads w (raw_body req) = Inr p" "map_of keys k = Some info"
    and "get_token w m = (Inr tok, m', tt)"
    and "http_post w (google_url w model) p
           [(''Authorization'', ''Bearer '' @ fstr tok),
            (''Content-Type'', ''application/json'')] = Inl e"
  shows "\<exists>e' t. forward_request w keys m model req k = (Inl e', m', t)
           \<and> stages_of t = [ParseBody, BuildTarget, FetchToken, Forward]
           \<and> length (posts_of t) = 1"
proof -
  from get_token_trace [of w m] assms(3) have tt: "stages_of tt = []" "posts_of tt = []"
    by simp_all
  show ?thesis
    unfolding forward_request_post [OF assms(1-3)] Let_def
    using assms(4) tt by (cases e) simp_all
qed

lemma handle_request_stages:
  "stages_of (snd (snd (handle_request w keys m model req)))
     \<in> {[Authenticate], [Authenticate, ParseBody],
        [Authenticate, ParseBody, BuildTarget, FetchToken],
        [Authenticate, ParseBody, BuildTarget, FetchToken, Forward],
        [Authenticate, ParseBody, BuildTarget, FetchToken, Forward, Relay]}"
proof (cases "fst (verify_api_key keys req)")
  case (Inl e)
  then show ?thesis by (simp add: handle_request_auth_fail)
next
  case v: (Inr k)
  obtain r m' t where f: "forward_request w keys m model req k = (r, m', t)"
    by (cases "forward_request w keys m model req k")
  show ?thesis
  proof (cases r)
    case (Inl e)
    from forward_request_stages [of w keys m model req k] f
    have "stages_of t \<in> {[ParseBody], [ParseBody, BuildTarget, FetchToken],
        [ParseBody, BuildTarget, FetchToken, Forward]}" by simp
    with handle_request_forward_failed [OF v f [unfolded Inl]] show ?thesis by auto
  next
    case (Inr resp)
    from handle_request_received [OF upstream_response_forward [OF v f [unfolded Inr]]]
    show ?thesis by simp
  qed
qed

text \<open>Facts about successive calls of \<^verbatim>\<open>get_token\<close>.\<close>

lemma get_token_at_most:
  "refreshes (snd (snd (get_token w m))) \<le> 1"
  by (simp add: get_token_refreshes split: option.splits)

lemma get_token_calls_at_most:
  "refreshes (snd (snd (get_token_calls ws m))) \<le> length ws"
proof (induction ws arbitrary: m)
  case Nil
  then show ?case by simp
next
  case (Cons w ws)
  obtain r m' t where g: "get_token w m = (r, m', t)" by (cases "get_token w m")
  obtain rs m'' ts where gs: "get_token_calls ws m' = (rs, m'', ts)"
    by (cases "get_token_calls ws m'")
  from get_token_at_most [of w m] g have "refreshes t \<le> 1" by simp
  moreover from Cons.IH [of m'] gs have "refreshes ts \<le> length ws" by simp
  ultimately show ?case by (simp add: g gs)
qed

lemma get_token_refresh_failed:
  assumes "creds m = Some c" "\<not> valid w c \<or> expired w c" "jwt_grant w = Inl e"
  shows "\<exists>l. get_token w m = (Inl e, m, [Log l, RefreshRoundTrip])"
proof (cases "valid w c")
  case True
  with assms get_token_recheck_fail [of m c w e] show ?thesis by blast
next
  case False
  with assms get_token_refresh_fail [of m c w e] show ?thesis by blast
qed

lemma get_token_refreshed:
  assumes "creds m = Some c" "\<not> valid w c \<or> expired w c" "jwt_grant w = Inr (tok, exp)"
  shows "\<exists>l. get_token w m
           = (Inr (Some tok), m\<lparr>creds := Some (c\<lparr>token := Some tok, expiry := Some exp\<rparr>)\<rparr>,
              [Log l, RefreshRoundTrip])"
proof (cases "valid w c")
  case True
  with assms get_token_recheck_ok [of m c w tok exp] show ?thesis by blast
next
  case False
  with assms get_token_refresh_ok [of m c w tok exp] show ?thesis by blast
qed

lemma get_token_calls_all_fail:
  assumes "creds m = Some c"
    and "\<forall>w \<in> set ws. (\<not> valid w c \<or> expired w c) \<and> isl (jwt_grant w)"
  shows "refreshes (snd (snd (get_token_calls ws m))) = length ws
         \<and> fst (snd (get_token_calls ws m)) = m
         \<and> (\<forall>r \<in> set (fst (get_token_calls ws m)). isl r)"
  using assms(2)
proof (induction ws)
  case Nil
  then show ?case by simp
next
  case (Cons w ws)
  then have st: "\<not> valid w c \<or> expired w c" and "isl (jwt_grant w)" by simp_all
  then obtain e where j: "jwt_grant w = Inl e" by (cases "jwt_grant w") auto
  from get_token_refresh_failed [OF assms(1) st j] obtain l where
    g: "get_token w m = (Inl e, m, [Log l, RefreshRoundTrip])" by blast
  obtain rs m'' ts where gs: "get_token_calls ws m = (rs, m'', ts)"
    by (cases "get_token_calls ws m")
  from Cons gs have "refreshes ts = length ws" "m'' = m" "\<forall>r \<in> set rs. isl r" by simp_all
  then show ?case by (simp add: g gs)
qed

lemma get_token_calls_all_cached:
  assumes "creds m = Some c"
    and "\<forall>w \<in> set ws. valid w c \<and> \<not> expired w c"
  shows "get_token_calls ws m = (replicate (length ws) (Inr (token c)), m, [])"
  using assms(2)
proof (induction ws)
  case Nil
  then show ?case by simp
next
  case (Cons w ws)
  then have "valid w c" "\<not> expired w c" by simp_all
  from get_token_valid [OF assms(1) this] Cons show ?case by simp
qed

text \<open>
  What a request that fails before the forwarding stage gets. When \<^verbatim>\<open>verify_api_key\<close>
  raises, the client gets that exception (401 or 403), the manager is untouched, no stage
  after authentication starts, and there is neither a refresh round trip nor a POST. When
  the caller is accepted and the parser raises on the body, the client gets 400 for a
  \<open>JSONDecodeError\<close> and the parser's exception itself for any other class, with the
  manager untouched, no round trip and no POST. When caller and body are accepted and
  \<^verbatim>\<open>get_token\<close> raises, the client gets 500 and there is no POST.
\<close>

lemma failures_before_forwarding:
  "(\<forall>e. fst (verify_api_key keys req) = Inl e \<longrightarrow>
        fst (handle_request w keys m model req) = Inl e
        \<and> (e = HTTPException 401 ''Missing or invalid Authorization header''
            \<or> e = HTTPException 401 ''Invalid API Key''
            \<or> e = HTTPException 403 ''API Key is inactive'')
        \<and> fst (snd (handle_request w keys m model req)) = m
        \<and> stages_of (snd (snd (handle_request w keys m model req))) = [Authenticate]
        \<and> refreshes (snd (snd (handle_request w keys m model req))) = 0
        \<and> posts_of (snd (snd (handle_request w keys m model req))) = [])
   \<and> (\<forall>k e. fst (verify_api_key keys req) = Inr k
          \<and> json_loads w (raw_body req) = Inl e \<longrightarrow>
        fst (handle_request w keys m model req)
          = Inl (case e of
                   JSONDecodeError msg \<Rightarrow> HTTPException 400 ''Invalid JSON body''
                 | _ \<Rightarrow> e)
        \<and> fst (snd (handle_request w keys m model req)) = m
        \<and> refreshes (snd (snd (handle_request w keys m model req))) = 0
        \<and> posts_of (snd (snd (handle_request w keys m model req))) = [])
   \<and> (\<forall>k p e. fst (verify_api_key keys req) = Inr k
          \<and> json_loads w (raw_body req) = Inr p \<and> fst (get_token w m) = Inl e \<longrightarrow>
        fst (handle_request w keys m model req)
          = Inl (HTTPException 500 ''Internal Server Error: GCP Auth Failed'')
        \<and> posts_of (snd (snd (handle_request w keys m model req))) = [])"
proof (intro conjI allI impI)
  fix e
  assume a: "fst (verify_api_key keys req) = Inl e"
  note h = handle_request_auth_fail [OF a, of w m model]
  show "fst (handle_request w keys m model req) = Inl e"
    "fst (snd (handle_request w keys m model req)) = m"
    "stages_of (snd (snd (handle_request w keys m model req))) = [Authenticate]"
    "refreshes (snd (snd (handle_request w keys m model req))) = 0"
    "posts_of (snd (snd (handle_request w keys m model req))) = []"
    unfolding h by simp_all
  show "e = HTTPException 401 ''Missing or invalid Authorization header''
            \<or> e = HTTPException 401 ''Invalid API Key''
            \<or> e = HTTPException 403 ''API Key is inactive''"
    by (rule verify_api_key_Inl [OF a])
next
  fix k e
  assume a: "fst (verify_api_key keys req) = Inr k \<and> json_loads w (raw_body req) = Inl e"
  then have v: "fst (verify_api_key keys req) = Inr k"
    and j: "json_loads w (raw_body req) = Inl e" by simp_all
  note h = handle_request_forward_failed [OF v forward_request_parse_fail [OF j]]
  show "fst (handle_request w keys m model req)
          = Inl (case e of
                   JSONDecodeError msg \<Rightarrow> HTTPException 400 ''Invalid JSON body''
                 | _ \<Rightarrow> e)"
    "fst (snd (handle_request w keys m model req)) = m"
    "refreshes (snd (snd (handle_request w keys m model req))) = 0"
    "posts_of (snd (snd (handle_request w keys m model req))) = []"
    unfolding h by simp_all
next
  fix k p e
  assume a: "fst (verify_api_key keys req) = Inr k
          \<and> json_loads w (raw_body req) = Inr p \<and> fst (get_token w m) = Inl e"
  then have v: "fst (verify_api_key keys req) = Inr k"
    and j: "json_loads w (raw_body req) = Inr p" by simp_all
  from verify_api_key_Inr [OF v] obtain info where i: "map_of keys k = Some info" by blast
  from a obtain m' tt where g: "get_token w m = (Inl e, m', tt)"
    by (cases "get_token w m") auto
  with get_token_trace [of w m] have tt: "posts_of tt = []" by simp
  note h = handle_request_forward_failed [OF v forward_request_token_fail [OF j i g]]
  show "fst (handle_request w keys m model req)
          = Inl (HTTPException 500 ''Internal Server Error: GCP Auth Failed'')"
    "posts_of (snd (snd (handle_request w keys m model req))) = []"
    unfolding h using tt by simp_all
qed


section \<open>The claims\<close>

text \<open>
  C1, as stated, fails. The claim: for every upstream response that the forwarding
  stage receives, the client gets the same status code and a body identical, byte for
  byte, to the upstream's body. Here the caller, the body and the cached token are good
  and the upstream answers 200 with \<^verbatim>\<open>{"predictions": ["ok"]}\<close>; the client gets status 200
  with the body \<^verbatim>\<open>{"predictions":["ok"]}\<close>, which has lost the space.
\<close>

theorem relay_not_byte_identical:
  \<open>upstream_response
      (stub_world (Inr (''ya29.new'', 4600))
         (Inr \<lparr>status_code = 200, content = ''{"predictions": ["ok"]}''\<rparr>))
      VALID_API_KEYS cached_manager ''gemini-test'' scenario_request
     = Some \<lparr>status_code = 200, content = ''{"predictions": ["ok"]}''\<rparr>
   \<and> fst (handle_request
          (stub_world (Inr (''ya29.new'', 4600))
             (Inr \<lparr>status_code = 200, content = ''{"predictions": ["ok"]}''\<rparr>))
          VALID_API_KEYS cached_manager ''gemini-test'' scenario_request)
     = Inr (JSONResponse ''{"predictions":["ok"]}'' 200)
   \<and> fst (handle_request
          (stub_world (Inr (''ya29.new'', 4600))
             (Inr \<lparr>status_code = 200, content = ''{"predictions": ["ok"]}''\<rparr>))
          VALID_API_KEYS cached_manager ''gemini-test'' scenario_request)
     \<noteq> Inr (JSONResponse ''{"predictions": ["ok"]}'' 200)\<close>
  by code_simp

text \<open>
  C1, amended. For every upstream response that the forwarding stage receives and whose
  body the JSON parser accepts, with a parsed value that the renderer accepts, the client
  gets a response with the upstream's status code, whatever it is (so 429 and 500 are not
  turned into 502), and with the rendering of the parsed body as its body.
\<close>

theorem relay_reserialises:
  assumes "upstream_response w keys m model req = Some resp"
    and "json_loads w (content resp) = Inr v"
    and "json_dumps w v = Inr b"
  shows "fst (handle_request w keys m model req) = Inr (JSONResponse b (status_code resp))"
  using handle_request_received [OF assms(1)] assms(2,3)
  by (simp add: relay_def Let_def)

text \<open>
  The amended C1 on a run: an upstream 429 with the body \<^verbatim>\<open>{"error": {"code": 429}}\<close> reaches
  the client as 429 with \<^verbatim>\<open>{"error":{"code":429}}\<close>.
\<close>

theorem relay_reserialises_witness:
  \<open>fst (handle_request
          (stub_world (Inr (''ya29.new'', 4600))
             (Inr \<lparr>status_code = 429, content = ''{"error": {"code": 429}}''\<rparr>))
          VALID_API_KEYS cached_manager ''gemini-test'' scenario_request)
     = Inr (JSONResponse ''{"error":{"code":429}}'' 429)\<close>
proof -
  let ?w = \<open>stub_world (Inr (''ya29.new'', 4600))
             (Inr \<lparr>status_code = 429, content = ''{"error": {"code": 429}}''\<rparr>)\<close>
  have u: \<open>upstream_response ?w VALID_API_KEYS cached_manager ''gemini-test'' scenario_request
             = Some \<lparr>status_code = 429, content = ''{"error": {"code": 429}}''\<rparr>\<close>
    by code_simp
  have l: \<open>json_loads ?w (content \<lparr>status_code = 429, content = ''{"error": {"code": 429}}''\<rparr>)
             = Inr (JObj [(''error'', JObj [(''code'', JInt 429)])])\<close>
    by code_simp
  have d: \<open>json_dumps ?w (JObj [(''error'', JObj [(''code'', JInt 429)])])
             = Inr ''{"error":{"code":429}}''\<close>
    by code_simp
  from relay_reserialises [OF u l d] show ?thesis by simp
qed

text \<open>
  C2, where the code differs from the claim. The claim: a request whose body is not
  syntactically valid JSON gets status 400, and no upstream POST is made. Here the caller
  is accepted and the body is the single byte FF, which is no text at all. The parser
  raises \<^verbatim>\<open>UnicodeDecodeError\<close>; the \<^verbatim>\<open>except\<close> clause of the source names
  \<^verbatim>\<open>json.JSONDecodeError\<close> only, so the handler ends with that exception and not with the
  400. No upstream POST is made.
\<close>

theorem undecodable_body_not_mapped:
  "fst (verify_api_key VALID_API_KEYS (scenario_request\<lparr>raw_body := [CHR 0xFF]\<rparr>))
     = Inr ''sk-client-veo-001''
   \<and> fst (handle_request
          (stub_world (Inr (''ya29.new'', 4600)) (Inr \<lparr>status_code = 200, content = ''{}''\<rparr>))
          VALID_API_KEYS cached_manager ''gemini-test''
          (scenario_request\<lparr>raw_body := [CHR 0xFF]\<rparr>))
     = Inl (UnicodeDecodeError decode_error_text)
   \<and> fst (handle_request
          (stub_world (Inr (''ya29.new'', 4600)) (Inr \<lparr>status_code = 200, content = ''{}''\<rparr>))
          VALID_API_KEYS cached_manager ''gemini-test''
          (scenario_request\<lparr>raw_body := [CHR 0xFF]\<rparr>))
     \<noteq> Inl (HTTPException 400 ''Invalid JSON body'')
   \<and> posts_of (snd (snd (handle_request
          (stub_world (Inr (''ya29.new'', 4600)) (Inr \<lparr>status_code = 200, content = ''{}''\<rparr>))
          VALID_API_KEYS cached_manager ''gemini-test''
          (scenario_request\<lparr>raw_body := [CHR 0xFF]\<rparr>)))) = []"
  by code_simp

text \<open>
  C3, as stated, fails. The claim: N concurrent callers that find the cached token
  expired or absent cause exactly one refresh round trip. Here three callers find the
  token expired while the identity provider rejects the refresh: each of them makes a
  round trip of its own. The manager is left as it was.
\<close>

theorem stale_callers_each_refresh:
  "\<not> valid (stub_world (Inl (RefreshError ''invalid_grant'')) (Inl (RequestError ''unused'')))
        \<lparr>token = Some ''ya29.stale'', expiry = Some 900\<rparr>
   \<and> refreshes (snd (snd (get_token_calls
         [stub_world (Inl (RefreshError ''invalid_grant'')) (Inl (RequestError ''unused'')),
          stub_world (Inl (RefreshError ''invalid_grant'')) (Inl (RequestError ''unused'')),
          stub_world (Inl (RefreshError ''invalid_grant'')) (Inl (RequestError ''unused''))]
         stale_manager))) = 3
   \<and> fst (snd (get_token_calls
         [stub_world (Inl (RefreshError ''invalid_grant'')) (Inl (RequestError ''unused'')),
          stub_world (Inl (RefreshError ''invalid_grant'')) (Inl (RequestError ''unused'')),
          stub_world (Inl (RefreshError ''invalid_grant'')) (Inl (RequestError ''unused''))]
         stale_manager)) = stale_manager"
  by (simp add: get_token_def stale_manager_def valid_def expired_at_def stub_world_def
      refresh_def)

text \<open>
  C3, amended. The calls of concurrent callers happen one after another, so at most one
  refresh is in flight at a time, and each call makes at most one round trip. There is no
  single flight beyond that: every caller that finds the cached token missing, invalid or
  expired makes its own round trip. When all N callers find it so and their refreshes
  fail, there are N round trips, every caller gets an exception and the manager stays as
  it was. When the first caller's refresh succeeds and the new token is valid and
  unexpired for the callers after it, there is exactly one round trip, every caller gets
  the new token, and the manager holds the new token and expiry.
\<close>

theorem get_token_calls_refreshes:
  fixes ws :: "'j world list"
  assumes "creds m = Some c"
  shows "refreshes (snd (snd (get_token_calls ws m))) \<le> length ws
       \<and> ((\<forall>w \<in> set ws. (\<not> valid w c \<or> expired w c) \<and> isl (jwt_grant w)) \<longrightarrow>
             refreshes (snd (snd (get_token_calls ws m))) = length ws
             \<and> fst (snd (get_token_calls ws m)) = m
             \<and> (\<forall>r \<in> set (fst (get_token_calls ws m)). isl r))
       \<and> (\<forall>(w :: 'j world) tok exp.
             (\<not> valid w c \<or> expired w c) \<and> jwt_grant w = Inr (tok, exp)
             \<and> (\<forall>w' \<in> set ws. valid w' (c\<lparr>token := Some tok, expiry := Some exp\<rparr>)
                                \<and> \<not> expired w' (c\<lparr>token := Some tok, expiry := Some exp\<rparr>)) \<longrightarrow>
             refreshes (snd (snd (get_token_calls (w # ws) m))) = 1
             \<and> fst (get_token_calls (w # ws) m) = replicate (Suc (length ws)) (Inr (Some tok))
             \<and> fst (snd (get_token_calls (w # ws) m))
                 = m\<lparr>creds := Some (c\<lparr>token := Some tok, expiry := Some exp\<rparr>)\<rparr>)"
proof (intro conjI)
  show "refreshes (snd (snd (get_token_calls ws m))) \<le> length ws"
    by (rule get_token_calls_at_most)
  show "(\<forall>w \<in> set ws. (\<not> valid w c \<or> expired w c) \<and> isl (jwt_grant w)) \<longrightarrow>
             refreshes (snd (snd (get_token_calls ws m))) = length ws
             \<and> fst (snd (get_token_calls ws m)) = m
             \<and> (\<forall>r \<in> set (fst (get_token_calls ws m)). isl r)"
    using get_token_calls_all_fail [OF assms, of ws] by blast
  show "\<forall>(w :: 'j world) tok exp.
             (\<not> valid w c \<or> expired w c) \<and> jwt_grant w = Inr (tok, exp)
             \<and> (\<forall>w' \<in> set ws. valid w' (c\<lparr>token := Some tok, expiry := Some exp\<rparr>)
                                \<and> \<not> expired w' (c\<lparr>token := Some tok, expiry := Some exp\<rparr>)) \<longrightarrow>
             refreshes (snd (snd (get_token_calls (w # ws) m))) = 1
             \<and> fst (get_token_calls (w # ws) m) = replicate (Suc (length ws)) (Inr (Some tok))
             \<and> fst (snd (get_token_calls (w # ws) m))
                 = m\<lparr>creds := Some (c\<lparr>token := Some tok, expiry := Some exp\<rparr>)\<rparr>"
  proof (intro allI impI)
    fix w :: "'j world" and tok exp
    assume a: "(\<not> valid w c \<or> expired w c) \<and> jwt_grant w = Inr (tok, exp)
             \<and> (\<forall>w' \<in> set ws. valid w' (c\<lparr>token := Some tok, expiry := Some exp\<rparr>)
                                \<and> \<not> expired w' (c\<lparr>token := Some tok, expiry := Some exp\<rparr>))"
    let ?c' = "c\<lparr>token := Some tok, expiry := Some exp\<rparr>"
    let ?m' = "m\<lparr>creds := Some ?c'\<rparr>"
    from a have st: "\<not> valid w c \<or> expired w c" and j: "jwt_grant w = Inr (tok, exp)"
      and later: "\<forall>w' \<in> set ws. valid w' ?c' \<and> \<not> expired w' ?c'" by simp_all
    from get_token_refreshed [OF assms st j] obtain l where
      g: "get_token w m = (Inr (Some tok), ?m', [Log l, RefreshRoundTrip])" by blast
    have c': "creds ?m' = Some ?c'" by simp
    have t': "token ?c' = Some tok" by simp
    from get_token_calls_all_cached [OF c' later] t'
    have rest: "get_token_calls ws ?m' = (replicate (length ws) (Inr (Some tok)), ?m', [])"
      by simp
    show "refreshes (snd (snd (get_token_calls (w # ws) m))) = 1
             \<and> fst (get_token_calls (w # ws) m) = replicate (Suc (length ws)) (Inr (Some tok))
             \<and> fst (snd (get_token_calls (w # ws) m)) = ?m'"
      by (simp add: g rest)
  qed
qed

text \<open>
  The amended C3 on two runs of three callers on a token that expired at 900: the
  identity provider rejects every refresh, or it answers the first caller with a token
  that expires at 4600.
\<close>

theorem get_token_calls_refreshes_witness:
  "refreshes (snd (snd (get_token_calls
       [stub_world (Inl (RefreshError ''invalid_grant'')) (Inl (RequestError ''unused'')),
        later_world (Inl (RefreshError ''invalid_grant'')) (Inl (RequestError ''unused'')),
        later_world (Inl (RefreshError ''invalid_grant'')) (Inl (RequestError ''unused''))]
       stale_manager))) = 3
   \<and> refreshes (snd (snd (get_token_calls
       [stub_world (Inr (''ya29.new'', 4600)) (Inl (RequestError ''unused'')),
        stub_world (Inr (''ya29.other'', 4700)) (Inl (RequestError ''unused'')),
        later_world (Inr (''ya29.other'', 4700)) (Inl (RequestError ''unused''))]
       stale_manager))) = 1
   \<and> fst (get_token_calls
       [stub_world (Inr (''ya29.new'', 4600)) (Inl (RequestError ''unused'')),
        stub_world (Inr (''ya29.other'', 4700)) (Inl (RequestError ''unused'')),
        later_world (Inr (''ya29.other'', 4700)) (Inl (RequestError ''unused''))]
       stale_manager)
     = [Inr (Some ''ya29.new''), Inr (Some ''ya29.new''), Inr (Some ''ya29.new'')]"
proof -
  let ?f = "stub_world (Inl (RefreshError ''invalid_grant'')) (Inl (RequestError ''unused''))"
  let ?f' = "later_world (Inl (RefreshError ''invalid_grant'')) (Inl (RequestError ''unused''))"
  let ?w = "stub_world (Inr (''ya29.new'', 4600)) (Inl (RequestError ''unused''))"
  let ?w1 = "stub_world (Inr (''ya29.other'', 4700)) (Inl (RequestError ''unused''))"
  let ?w2 = "later_world (Inr (''ya29.other'', 4700)) (Inl (RequestError ''unused''))"
  let ?c = "\<lparr>token = Some ''ya29.stale'', expiry = Some 900\<rparr>"
  have s: "creds stale_manager = Some ?c"
    by (simp add: stale_manager_def)
  have fail: "\<forall>w \<in> set [?f, ?f', ?f']. (\<not> valid w ?c \<or> expired w ?c) \<and> isl (jwt_grant w)"
    by (simp add: valid_def expired_def expired_at_def stub_world_def later_world_def)
  have first: "(\<not> valid ?w ?c \<or> expired ?w ?c) \<and> jwt_grant ?w = Inr (''ya29.new'', 4600)"
    by (simp add: valid_def expired_def expired_at_def stub_world_def)
  have later: "\<forall>w' \<in> set [?w1, ?w2].
                 valid w' (?c\<lparr>token := Some ''ya29.new'', expiry := Some 4600\<rparr>)
                 \<and> \<not> expired w' (?c\<lparr>token := Some ''ya29.new'', expiry := Some 4600\<rparr>)"
    by (simp add: valid_def expired_def expired_at_def stub_world_def later_world_def)
  from get_token_calls_refreshes [OF s, of "[?f, ?f', ?f']"] fail
  have c1: "refreshes (snd (snd (get_token_calls [?f, ?f', ?f'] stale_manager))) = 3"
    by simp
  from get_token_calls_refreshes [OF s, of "[?w1, ?w2]"] first later
  have c2: "refreshes (snd (snd (get_token_calls [?w, ?w1, ?w2] stale_manager))) = 1
            \<and> fst (get_token_calls [?w, ?w1, ?w2] stale_manager)
                = [Inr (Some ''ya29.new''), Inr (Some ''ya29.new''), Inr (Some ''ya29.new'')]"
    by (auto simp: numeral_3_eq_3)
  from c1 c2 show ?thesis by blast
qed

text \<open>
  C4. When the key file does not exist, \<^verbatim>\<open>__init__\<close> returns a manager without
  credentials and logs one warning. On that manager every call of \<^verbatim>\<open>get_token\<close>, in any
  sequence of calls, raises \<^verbatim>\<open>RuntimeError("GCP Credentials not initialized")\<close> and leaves
  the manager as it is. No request handled with it makes an upstream POST, and a request
  whose caller and body are accepted gets status 500.
\<close>

theorem degraded_manager_fails:
  assumes "fs key_path = None"
  shows "GoogleAuthManager_init fs key_path
           = (Inr \<lparr>creds = None\<rparr>,
              [LogWarning (''GCP Credential file NOT found at: '' @ key_path
                            @ ''. GCP calls will fail.'')])
       \<and> (\<forall>ws :: 'j world list.
             get_token_calls ws \<lparr>creds = None\<rparr>
               = (replicate (length ws) (Inl (RuntimeError ''GCP Credentials not initialized'')),
                  \<lparr>creds = None\<rparr>, []))
       \<and> (\<forall>(w :: 'j world) keys model req.
             posts_of (snd (snd (handle_request w keys \<lparr>creds = None\<rparr> model req))) = []
             \<and> (\<forall>k p. fst (verify_api_key keys req) = Inr k
                       \<and> json_loads w (raw_body req) = Inr p \<longrightarrow>
                   fst (handle_request w keys \<lparr>creds = None\<rparr> model req)
                     = Inl (HTTPException 500 ''Internal Server Error: GCP Auth Failed'')))"
proof -
  have i: "GoogleAuthManager_init fs key_path
           = (Inr \<lparr>creds = None\<rparr>,
              [LogWarning (''GCP Credential file NOT found at: '' @ key_path
                            @ ''. GCP calls will fail.'')])"
    using assms by (simp add: GoogleAuthManager_init_def)
  have c: "creds \<lparr>creds = None\<rparr> = None" by simp
  have g: "\<forall>ws :: 'j world list.
             get_token_calls ws \<lparr>creds = None\<rparr>
               = (replicate (length ws) (Inl (RuntimeError ''GCP Credentials not initialized'')),
                  \<lparr>creds = None\<rparr>, [])"
    by (intro allI) (rule get_token_calls_degraded)
  have h: "\<forall>(w :: 'j world) keys model req.
             posts_of (snd (snd (handle_request w keys \<lparr>creds = None\<rparr> model req))) = []
             \<and> (\<forall>k p. fst (verify_api_key keys req) = Inr k
                       \<and> json_loads w (raw_body req) = Inr p \<longrightarrow>
                   fst (handle_request w keys \<lparr>creds = None\<rparr> model req)
                     = Inl (HTTPException 500 ''Internal Server Error: GCP Auth Failed''))"
    by (intro allI) (rule handle_request_degraded [OF c])
  show ?thesis by (intro conjI i g h)
qed

text \<open>
  C4 on a run: no file at \<^verbatim>\<open>vertex_creds.json\<close>, two calls of \<^verbatim>\<open>get_token\<close>, and the
  request of the specification's scenario.
\<close>

theorem degraded_manager_fails_witness:
  "GoogleAuthManager_init (Map.empty :: string \<rightharpoonup> exn + credentials) ''vertex_creds.json''
     = (Inr degraded_manager,
        [LogWarning ''GCP Credential file NOT found at: vertex_creds.json. GCP calls will fail.''])
   \<and> fst (get_token_calls
            [stub_world (Inr (''ya29.new'', 4600)) (Inl (RequestError ''unused'')),
             later_world (Inr (''ya29.new'', 4660)) (Inl (RequestError ''unused''))]
            degraded_manager)
       = [Inl (RuntimeError ''GCP Credentials not initialized''),
          Inl (RuntimeError ''GCP Credentials not initialized'')]
   \<and> fst (handle_request
            (stub_world (Inr (''ya29.new'', 4600))
               (Inr \<lparr>status_code = 200, content = ''{}''\<rparr>))
            VALID_API_KEYS degraded_manager ''gemini-test'' scenario_request)
       = Inl (HTTPException 500 ''Internal Server Error: GCP Auth Failed'')
   \<and> posts_of (snd (snd (handle_request
            (stub_world (Inr (''ya29.new'', 4600))
               (Inr \<lparr>status_code = 200, content = ''{}''\<rparr>))
            VALID_API_KEYS degraded_manager ''gemini-test'' scenario_request))) = []"
proof -
  let ?w = "stub_world (Inr (''ya29.new'', 4600)) (Inr \<lparr>status_code = 200, content = ''{}''\<rparr>)"
  have e: "(Map.empty :: string \<rightharpoonup> exn + credentials) ''vertex_creds.json'' = None" by simp
  have v: "fst (verify_api_key VALID_API_KEYS scenario_request) = Inr ''sk-client-veo-001''"
    by (simp add: verify_api_key_bearer scenario_request_def startswith_def VALID_API_KEYS_def)
  have j: "json_loads ?w (raw_body scenario_request)
             = Inr (JObj [(''instances'', JArr [JObj [(''prompt'', JStr ''hi'')]])])"
    by code_simp
  from degraded_manager_fails [OF e, where 'j = json] v j
  show ?thesis by (simp add: degraded_manager_def)
qed

text \<open>
  C5, as stated, fails. The claim: a cached token that is valid and whose expiry lies in
  the future is returned without a refresh round trip. \<^verbatim>\<open>get_token\<close> checks the token
  twice, and the library counts a token as expired from 225 seconds before its expiry.
  Here the token expires at 3600; the first check, at 3374, finds it valid and the second,
  at 3375, finds it expired, so the call makes a round trip and returns the new token,
  although the expiry lies in the future at both moments.
\<close>

theorem cached_token_refreshed_at_margin:
  "valid (margin_world (Inr (''ya29.new'', 7200)) (Inl (RequestError ''unused'')))
      \<lparr>token = Some ''ya29.cached'', expiry = Some 3600\<rparr>
   \<and> now (margin_world (Inr (''ya29.new'', 7200)) (Inl (RequestError ''unused''))) < 3600
   \<and> now_again (margin_world (Inr (''ya29.new'', 7200)) (Inl (RequestError ''unused''))) < 3600
   \<and> get_token (margin_world (Inr (''ya29.new'', 7200)) (Inl (RequestError ''unused'')))
        cached_manager
     = (Inr (Some ''ya29.new''),
        \<lparr>creds = Some \<lparr>token = Some ''ya29.new'', expiry = Some 7200\<rparr>\<rparr>,
        [Log (LogInfo ''GCP token expired, refreshing...''), RefreshRoundTrip])"
  by (simp add: get_token_def cached_manager_def valid_def expired_def expired_at_def
      margin_world_def stub_world_def refresh_def)

text \<open>
  C5, amended. On a manager with credentials, a cached token that is valid at the first
  check and not expired at the second is returned as it is, with no effect and no change
  of the manager. The call makes one refresh round trip when the token is missing, not
  valid at the first check or expired at the second, and none otherwise. A round trip
  that succeeds stores the provider's token and expiry in the manager and returns that
  token; one that raises surfaces its exception and leaves the manager as it was.
\<close>

theorem get_token_cached:
  assumes "creds m = Some c"
  shows "(valid w c \<and> \<not> expired w c \<longrightarrow>
            (\<exists>t. token c = Some t \<and> get_token w m = (Inr (Some t), m, [])))
       \<and> refreshes (snd (snd (get_token w m)))
           = (if token c = None \<or> \<not> valid w c \<or> expired w c then 1 else 0)
       \<and> (\<forall>tok exp. (\<not> valid w c \<or> expired w c) \<and> jwt_grant w = Inr (tok, exp) \<longrightarrow>
             fst (get_token w m) = Inr (Some tok)
             \<and> fst (snd (get_token w m))
                 = m\<lparr>creds := Some (c\<lparr>token := Some tok, expiry := Some exp\<rparr>)\<rparr>)
       \<and> (\<forall>e. (\<not> valid w c \<or> expired w c) \<and> jwt_grant w = Inl e \<longrightarrow>
             fst (get_token w m) = Inl e \<and> fst (snd (get_token w m)) = m)"
proof (intro conjI impI allI)
  assume v: "valid w c \<and> \<not> expired w c"
  then obtain t where "token c = Some t" using valid_token by blast
  with get_token_valid [OF assms, of w] v
  show "\<exists>t. token c = Some t \<and> get_token w m = (Inr (Some t), m, [])" by simp
next
  have "token c = None \<or> \<not> valid w c \<or> expired w c \<longleftrightarrow> \<not> (valid w c \<and> \<not> expired w c)"
    by (auto simp: valid_def)
  then show "refreshes (snd (snd (get_token w m)))
           = (if token c = None \<or> \<not> valid w c \<or> expired w c then 1 else 0)"
    using assms by (simp add: get_token_refreshes)
next
  fix tok exp
  assume a: "(\<not> valid w c \<or> expired w c) \<and> jwt_grant w = Inr (tok, exp)"
  then have st: "\<not> valid w c \<or> expired w c" and j: "jwt_grant w = Inr (tok, exp)"
    by simp_all
  from get_token_refreshed [OF assms st j]
  show "fst (get_token w m) = Inr (Some tok)"
    and "fst (snd (get_token w m))
           = m\<lparr>creds := Some (c\<lparr>token := Some tok, expiry := Some exp\<rparr>)\<rparr>"
    by auto
next
  fix e
  assume a: "(\<not> valid w c \<or> expired w c) \<and> jwt_grant w = Inl e"
  then have st: "\<not> valid w c \<or> expired w c" and j: "jwt_grant w = Inl e" by simp_all
  from get_token_refresh_failed [OF assms st j]
  show "fst (get_token w m) = Inl e" and "fst (snd (get_token w m)) = m" by auto
qed

text \<open>
  The amended C5 on four runs: at time 1000 a token that expires at 3600 is returned from
  the cache; a token that expired at 900 is replaced by the provider's answer, and so is
  the token that expires at 3600 when the clock passes 3375 between the two checks; a
  refresh that the provider rejects surfaces and leaves the manager.
\<close>

theorem get_token_cached_witness:
  "get_token (stub_world (Inr (''ya29.new'', 4600)) (Inl (RequestError ''unused''))) cached_manager
     = (Inr (Some ''ya29.cached''), cached_manager, [])
   \<and> refreshes (snd (snd (get_token (stub_world (Inr (''ya29.new'', 4600))
                                       (Inl (RequestError ''unused''))) cached_manager))) = 0
   \<and> refreshes (snd (snd (get_token (stub_world (Inr (''ya29.new'', 4600))
                                       (Inl (RequestError ''unused''))) stale_manager))) = 1
   \<and> fst (get_token (stub_world (Inr (''ya29.new'', 4600))
                       (Inl (RequestError ''unused''))) stale_manager) = Inr (Some ''ya29.new'')
   \<and> fst (snd (get_token (stub_world (Inr (''ya29.new'', 4600))
                       (Inl (RequestError ''unused''))) stale_manager))
       = \<lparr>creds = Some \<lparr>token = Some ''ya29.new'', expiry = Some 4600\<rparr>\<rparr>
   \<and> fst (get_token (margin_world (Inr (''ya29.new'', 7200))
                       (Inl (RequestError ''unused''))) cached_manager) = Inr (Some ''ya29.new'')
   \<and> fst (get_token (stub_world (Inl (RefreshError ''invalid_grant''))
                       (Inl (RequestError ''unused''))) stale_manager)
       = Inl (RefreshError ''invalid_grant'')
   \<and> fst (snd (get_token (stub_world (Inl (RefreshError ''invalid_grant''))
                       (Inl (RequestError ''unused''))) stale_manager)) = stale_manager"
proof -
  let ?w = "stub_world (Inr (''ya29.new'', 4600)) (Inl (RequestError ''unused''))"
  let ?g = "margin_world (Inr (''ya29.new'', 7200)) (Inl (RequestError ''unused''))"
  let ?f = "stub_world (Inl (RefreshError ''invalid_grant'')) (Inl (RequestError ''unused''))"
  let ?cc = "\<lparr>token = Some ''ya29.cached'', expiry = Some 3600\<rparr>"
  let ?cs = "\<lparr>token = Some ''ya29.stale'', expiry = Some 900\<rparr>"
  have c: "creds cached_manager = Some ?cc"
    by (simp add: cached_manager_def)
  have s: "creds stale_manager = Some ?cs"
    by (simp add: stale_manager_def)
  have v: "valid ?w ?cc \<and> \<not> expired ?w ?cc"
    by (simp add: valid_def expired_def expired_at_def stub_world_def)
  have nv: "(\<not> valid ?w ?cs \<or> expired ?w ?cs) \<and> jwt_grant ?w = Inr (''ya29.new'', 4600)"
    by (simp add: valid_def expired_def expired_at_def stub_world_def)
  have gv: "(\<not> valid ?g ?cc \<or> expired ?g ?cc) \<and> jwt_grant ?g = Inr (''ya29.new'', 7200)"
    by (simp add: valid_def expired_def expired_at_def stub_world_def margin_world_def)
  have fv: "(\<not> valid ?f ?cs \<or> expired ?f ?cs) \<and> jwt_grant ?f = Inl (RefreshError ''invalid_grant'')"
    by (simp add: valid_def expired_def expired_at_def stub_world_def)
  from get_token_cached [OF c, of ?w] v
  have r1: "get_token ?w cached_manager = (Inr (Some ''ya29.cached''), cached_manager, [])
            \<and> refreshes (snd (snd (get_token ?w cached_manager))) = 0"
    by auto
  from get_token_cached [OF s, of ?w] nv
  have r2: "refreshes (snd (snd (get_token ?w stale_manager))) = 1
            \<and> fst (get_token ?w stale_manager) = Inr (Some ''ya29.new'')
            \<and> fst (snd (get_token ?w stale_manager))
                = \<lparr>creds = Some \<lparr>token = Some ''ya29.new'', expiry = Some 4600\<rparr>\<rparr>"
    by (auto simp: stale_manager_def)
  from get_token_cached [OF c, of ?g] gv
  have r3: "fst (get_token ?g cached_manager) = Inr (Some ''ya29.new'')"
    by blast
  from get_token_cached [OF s, of ?f] fv
  have r4: "fst (get_token ?f stale_manager) = Inl (RefreshError ''invalid_grant'')
            \<and> fst (snd (get_token ?f stale_manager)) = stale_manager"
    by blast
  from r1 r2 r3 r4 show ?thesis by blast
qed

text \<open>
  C6, as stated, fails. The claim: a header that is not of the form \<^verbatim>\<open>Bearer <key>\<close> gives
  status 401, and so does a key that is not in the key table. Here the header is
  \<^verbatim>\<open>Bearer sk-client-veo-001 extra\<close>: what follows \<^verbatim>\<open>Bearer \<close> is not a key of the table, and
  \<^verbatim>\<open>verify_api_key\<close> accepts the caller, with the first word as the key.
\<close>

theorem trailing_text_accepted:
  "fst (verify_api_key VALID_API_KEYS
          \<lparr>authorization = Some ''Bearer sk-client-veo-001 extra'', raw_body = []\<rparr>)
     = Inr ''sk-client-veo-001''
   \<and> map_of VALID_API_KEYS ''sk-client-veo-001 extra'' = None"
  by (simp add: verify_api_key_bearer startswith_def VALID_API_KEYS_def)

text \<open>
  C6, amended. \<^verbatim>\<open>verify_api_key\<close> maps every request as follows. An absent Authorization
  header, or one that does not start with \<^verbatim>\<open>Bearer \<close>, gives status 401 (missing or
  invalid header). Otherwise the key is the text after \<^verbatim>\<open>Bearer \<close> up to the next space,
  and what follows that space is ignored: a key that is not in the key table gives status
  401 (invalid key), a key whose entry has \<open>active = False\<close> gives status 403, and any
  other key is returned.
\<close>

theorem verify_api_key_mapping:
  "(authorization req = None \<or> (\<exists>h. authorization req = Some h \<and> \<not> startswith h ''Bearer '')
      \<longrightarrow> fst (verify_api_key keys req)
            = Inl (HTTPException 401 ''Missing or invalid Authorization header''))
   \<and> (\<forall>h. authorization req = Some h \<and> startswith h ''Bearer '' \<longrightarrow>
         fst (verify_api_key keys req)
           = (let api_key = takeWhile (\<lambda>c. c \<noteq> CHR '' '') (drop 7 h)
              in case map_of keys api_key of
                   None \<Rightarrow> Inl (HTTPException 401 ''Invalid API Key'')
                 | Some info \<Rightarrow>
                     if active info then Inr api_key
                     else Inl (HTTPException 403 ''API Key is inactive'')))"
proof (intro conjI impI allI)
  assume "authorization req = None \<or> (\<exists>h. authorization req = Some h \<and> \<not> startswith h ''Bearer '')"
  then show "fst (verify_api_key keys req)
            = Inl (HTTPException 401 ''Missing or invalid Authorization header'')"
    by (simp add: verify_api_key_no_header)
next
  fix h
  assume "authorization req = Some h \<and> startswith h ''Bearer ''"
  then have "authorization req = Some h" "startswith h ''Bearer ''" by simp_all
  then show "fst (verify_api_key keys req)
           = (let api_key = takeWhile (\<lambda>c. c \<noteq> CHR '' '') (drop 7 h)
              in case map_of keys api_key of
                   None \<Rightarrow> Inl (HTTPException 401 ''Invalid API Key'')
                 | Some info \<Rightarrow>
                     if active info then Inr api_key
                     else Inl (HTTPException 403 ''API Key is inactive''))"
    by (simp add: verify_api_key_bearer Let_def split: option.splits)
qed

text \<open>
  The amended C6 on six requests: one for each outcome, and a header with a second word
  after the key.
\<close>

theorem verify_api_key_mapping_witness:
  "fst (verify_api_key VALID_API_KEYS \<lparr>authorization = None, raw_body = []\<rparr>)
     = Inl (HTTPException 401 ''Missing or invalid Authorization header'')
   \<and> fst (verify_api_key VALID_API_KEYS
            \<lparr>authorization = Some ''Basic sk-client-veo-001'', raw_body = []\<rparr>)
     = Inl (HTTPException 401 ''Missing or invalid Authorization header'')
   \<and> fst (verify_api_key VALID_API_KEYS
            \<lparr>authorization = Some ''Bearer sk-bad-key'', raw_body = []\<rparr>)
     = Inl (HTTPException 401 ''Invalid API Key'')
   \<and> fst (verify_api_key [(''sk-old'', \<lparr>name = ''Former Client'', active = False\<rparr>)]
            \<lparr>authorization = Some ''Bearer sk-old'', raw_body = []\<rparr>)
     = Inl (HTTPException 403 ''API Key is inactive'')
   \<and> fst (verify_api_key VALID_API_KEYS scenario_request) = Inr ''sk-client-veo-001''
   \<and> fst (verify_api_key VALID_API_KEYS
            \<lparr>authorization = Some ''Bearer sk-burncloud-admin and more'', raw_body = []\<rparr>)
     = Inr ''sk-burncloud-admin''"
  using
    verify_api_key_mapping [of "\<lparr>authorization = None, raw_body = []\<rparr>" VALID_API_KEYS]
    verify_api_key_mapping
      [of "\<lparr>authorization = Some ''Basic sk-client-veo-001'', raw_body = []\<rparr>" VALID_API_KEYS]
    verify_api_key_mapping
      [of "\<lparr>authorization = Some ''Bearer sk-bad-key'', raw_body = []\<rparr>" VALID_API_KEYS]
    verify_api_key_mapping
      [of "\<lparr>authorization = Some ''Bearer sk-old'', raw_body = []\<rparr>"
          "[(''sk-old'', \<lparr>name = ''Former Client'', active = False\<rparr>)]"]
    verify_api_key_mapping [of scenario_request VALID_API_KEYS]
    verify_api_key_mapping
      [of "\<lparr>authorization = Some ''Bearer sk-burncloud-admin and more'', raw_body = []\<rparr>"
          VALID_API_KEYS]
  by (simp add: startswith_def VALID_API_KEYS_def scenario_request_def)



text \<open>
  C8, as stated, fails. The claim: the stages run in the order authenticate, parse body,
  fetch token, build target, forward, relay, and a failing stage cuts off the ones after
  it. Here the manager has no credentials, so fetching the token fails; the target has
  been built before, so the stages that ran are not a beginning of the claimed order.
\<close>

theorem stage_order_counterexample:
  \<open>stages_of (snd (snd (handle_request
       (stub_world (Inr (''ya29.new'', 4600)) (Inr \<lparr>status_code = 200, content = ''{}''\<rparr>))
       VALID_API_KEYS degraded_manager ''gemini-test'' scenario_request)))
     = [Authenticate, ParseBody, BuildTarget, FetchToken]
   \<and> fst (handle_request
       (stub_world (Inr (''ya29.new'', 4600)) (Inr \<lparr>status_code = 200, content = ''{}''\<rparr>))
       VALID_API_KEYS degraded_manager ''gemini-test'' scenario_request)
     = Inl (HTTPException 500 ''Internal Server Error: GCP Auth Failed'')
   \<and> \<not> is_prefix
         (stages_of (snd (snd (handle_request
            (stub_world (Inr (''ya29.new'', 4600))
               (Inr \<lparr>status_code = 200, content = ''{}''\<rparr>))
            VALID_API_KEYS degraded_manager ''gemini-test'' scenario_request))))
         spec_stage_order\<close>
  by code_simp

text \<open>
  C8, amended. The stages run in the order authenticate, parse body, build target, fetch
  token, forward, relay: the stages of every run are a beginning of that list. A run ends
  with an exception right after authentication when \<^verbatim>\<open>verify_api_key\<close> raises, after
  parsing when the parser raises on the body, after fetching the token when
  \<^verbatim>\<open>get_token\<close> raises, and after forwarding when the POST raises; a run that receives
  an upstream response goes through all six stages.
\<close>

theorem stages_follow_source_order:
  "is_prefix (stages_of (snd (snd (handle_request w keys m model req)))) source_stage_order
   \<and> (\<forall>e. fst (verify_api_key keys req) = Inl e \<longrightarrow>
         isl (fst (handle_request w keys m model req))
         \<and> stages_of (snd (snd (handle_request w keys m model req))) = [Authenticate])
   \<and> (\<forall>k e. fst (verify_api_key keys req) = Inr k
            \<and> json_loads w (raw_body req) = Inl e \<longrightarrow>
         isl (fst (handle_request w keys m model req))
         \<and> stages_of (snd (snd (handle_request w keys m model req)))
             = [Authenticate, ParseBody])
   \<and> (\<forall>k p e. fst (verify_api_key keys req) = Inr k
            \<and> json_loads w (raw_body req) = Inr p \<and> fst (get_token w m) = Inl e \<longrightarrow>
         isl (fst (handle_request w keys m model req))
         \<and> stages_of (snd (snd (handle_request w keys m model req)))
             = [Authenticate, ParseBody, BuildTarget, FetchToken])
   \<and> (\<forall>k p tok e. fst (verify_api_key keys req) = Inr k
            \<and> json_loads w (raw_body req) = Inr p \<and> fst (get_token w m) = Inr tok
            \<and> http_post w (google_url w model) p
                 [(''Authorization'', ''Bearer '' @ fstr tok),
                  (''Content-Type'', ''application/json'')] = Inl e \<longrightarrow>
         isl (fst (handle_request w keys m model req))
         \<and> stages_of (snd (snd (handle_request w keys m model req)))
             = [Authenticate, ParseBody, BuildTarget, FetchToken, Forward])
   \<and> (\<forall>resp. upstream_response w keys m model req = Some resp \<longrightarrow>
         stages_of (snd (snd (handle_request w keys m model req))) = source_stage_order)"
proof -
  let ?h = "handle_request w keys m model req"
  have p: "is_prefix (stages_of (snd (snd ?h))) source_stage_order"
    using handle_request_stages [of w keys m model req]
    by (auto simp: is_prefix_def source_stage_order_def)
  have a: "isl (fst ?h) \<and> stages_of (snd (snd ?h)) = [Authenticate]"
    if "fst (verify_api_key keys req) = Inl e" for e
    using that by (simp add: handle_request_auth_fail)
  have b: "isl (fst ?h) \<and> stages_of (snd (snd ?h)) = [Authenticate, ParseBody]"
    if "fst (verify_api_key keys req) = Inr k \<and> json_loads w (raw_body req) = Inl e" for k e
  proof -
    from that have v: "fst (verify_api_key keys req) = Inr k"
      and j: "json_loads w (raw_body req) = Inl e" by simp_all
    from handle_request_forward_failed [OF v forward_request_parse_fail [OF j]]
    show ?thesis by simp
  qed
  have c: "isl (fst ?h)
           \<and> stages_of (snd (snd ?h)) = [Authenticate, ParseBody, BuildTarget, FetchToken]"
    if "fst (verify_api_key keys req) = Inr k
        \<and> json_loads w (raw_body req) = Inr p \<and> fst (get_token w m) = Inl e" for k p e
  proof -
    from that have v: "fst (verify_api_key keys req) = Inr k"
      and j: "json_loads w (raw_body req) = Inr p" by simp_all
    from verify_api_key_Inr [OF v] obtain info where i: "map_of keys k = Some info" by blast
    from that obtain m' tt where g: "get_token w m = (Inl e, m', tt)"
      by (cases "get_token w m") auto
    with get_token_trace [of w m] have tt: "stages_of tt = []" by simp
    from handle_request_forward_failed [OF v forward_request_token_fail [OF j i g]] tt
    show ?thesis by simp
  qed
  have d: "isl (fst ?h)
           \<and> stages_of (snd (snd ?h))
               = [Authenticate, ParseBody, BuildTarget, FetchToken, Forward]"
    if "fst (verify_api_key keys req) = Inr k
        \<and> json_loads w (raw_body req) = Inr p \<and> fst (get_token w m) = Inr tok
        \<and> http_post w (google_url w model) p
             [(''Authorization'', ''Bearer '' @ fstr tok),
              (''Content-Type'', ''application/json'')] = Inl e" for k p tok e
  proof -
    from that have v: "fst (verify_api_key keys req) = Inr k"
      and j: "json_loads w (raw_body req) = Inr p"
      and po: "http_post w (google_url w model) p
             [(''Authorization'', ''Bearer '' @ fstr tok),
              (''Content-Type'', ''application/json'')] = Inl e" by simp_all
    from verify_api_key_Inr [OF v] obtain info where i: "map_of keys k = Some info" by blast
    from that obtain m' tt where g: "get_token w m = (Inr tok, m', tt)"
      by (cases "get_token w m") auto
    from forward_request_post_fail [OF j i g po] obtain e' t where
      f: "forward_request w keys m model req k = (Inl e', m', t)" and
      st: "stages_of t = [ParseBody, BuildTarget, FetchToken, Forward]" by blast
    from handle_request_forward_failed [OF v f] st show ?thesis by simp
  qed
  have r: "stages_of (snd (snd ?h)) = source_stage_order"
    if "upstream_response w keys m model req = Some resp" for resp
    using handle_request_received [OF that] by (simp add: source_stage_order_def)
  from p a b c d r show ?thesis by blast
qed

text \<open>
  The amended C8 on three runs: a complete one, one without credentials and one whose
  POST times out.
\<close>

theorem stages_follow_source_order_witness:
  \<open>stages_of (snd (snd (handle_request
       (stub_world (Inr (''ya29.new'', 4600))
          (Inr \<lparr>status_code = 200, content = ''{"predictions":["ok"]}''\<rparr>))
       VALID_API_KEYS loaded_manager ''gemini-test'' scenario_request)))
     = [Authenticate, ParseBody, BuildTarget, FetchToken, Forward, Relay]
   \<and> stages_of (snd (snd (handle_request
       (stub_world (Inr (''ya29.new'', 4600))
          (Inr \<lparr>status_code = 200, content = ''{"predictions":["ok"]}''\<rparr>))
       VALID_API_KEYS degraded_manager ''gemini-test'' scenario_request)))
     = [Authenticate, ParseBody, BuildTarget, FetchToken]
   \<and> stages_of (snd (snd (handle_request
       (stub_world (Inr (''ya29.new'', 4600)) (Inl (RequestError ''timed out'')))
       VALID_API_KEYS loaded_manager ''gemini-test'' scenario_request)))
     = [Authenticate, ParseBody, BuildTarget, FetchToken, Forward]\<close>
proof -
  let ?ok = \<open>stub_world (Inr (''ya29.new'', 4600))
          (Inr \<lparr>status_code = 200, content = ''{"predictions":["ok"]}''\<rparr>)\<close>
  let ?down = "stub_world (Inr (''ya29.new'', 4600)) (Inl (RequestError ''timed out''))"
  let ?p = "JObj [(''instances'', JArr [JObj [(''prompt'', JStr ''hi'')]])]"
  have u: \<open>upstream_response ?ok VALID_API_KEYS loaded_manager ''gemini-test'' scenario_request
             = Some \<lparr>status_code = 200, content = ''{"predictions":["ok"]}''\<rparr>\<close>
    by code_simp
  have v: "fst (verify_api_key VALID_API_KEYS scenario_request) = Inr ''sk-client-veo-001''"
    by (simp add: verify_api_key_bearer scenario_request_def startswith_def VALID_API_KEYS_def)
  have j: "json_loads ?ok (raw_body scenario_request) = Inr ?p"
    by code_simp
  have j': "json_loads ?down (raw_body scenario_request) = Inr ?p"
    by code_simp
  have g: "fst (get_token ?ok degraded_manager)
             = Inl (RuntimeError ''GCP Credentials not initialized'')"
    by (simp add: get_token_def degraded_manager_def)
  have g': "fst (get_token ?down loaded_manager) = Inr (Some ''ya29.new'')"
    by (simp add: get_token_def loaded_manager_def valid_def stub_world_def refresh_def)
  have po: "http_post ?down (google_url ?down ''gemini-test'') ?p
              [(''Authorization'', ''Bearer '' @ fstr (Some ''ya29.new'')),
               (''Content-Type'', ''application/json'')] = Inl (RequestError ''timed out'')"
    by (simp add: stub_world_def)
  from stages_follow_source_order
         [of ?ok VALID_API_KEYS loaded_manager "''gemini-test''" scenario_request] u
  have c1: "stages_of (snd (snd (handle_request ?ok VALID_API_KEYS loaded_manager
              ''gemini-test'' scenario_request)))
            = [Authenticate, ParseBody, BuildTarget, FetchToken, Forward, Relay]"
    by (simp add: source_stage_order_def)
  from stages_follow_source_order
         [of ?ok VALID_API_KEYS degraded_manager "''gemini-test''" scenario_request] v j g
  have c2: "stages_of (snd (snd (handle_request ?ok VALID_API_KEYS degraded_manager
              ''gemini-test'' scenario_request)))
            = [Authenticate, ParseBody, BuildTarget, FetchToken]"
    by blast
  from stages_follow_source_order
         [of ?down VALID_API_KEYS loaded_manager "''gemini-test''" scenario_request] v j' g' po
  have c3: "stages_of (snd (snd (handle_request ?down VALID_API_KEYS loaded_manager
              ''gemini-test'' scenario_request)))
            = [Authenticate, ParseBody, BuildTarget, FetchToken, Forward]"
    by blast
  from c1 c2 c3 show ?thesis by blast
qed

text \<open>
  C9. The relay step parses the body of the upstream response and renders the parsed
  value. So for every upstream response received, of any status: when the parser raises
  on its body, the handler ends with that exception, which no clause of the source
  catches, and returns no response; when the parser accepts it, the result is the
  rendering of the parsed value with the upstream's status code (or the exception of the
  renderer).
\<close>

theorem relay_raises_on_unparseable_body:
  assumes "upstream_response w keys m model req = Some resp"
  shows "(\<forall>e. json_loads w (content resp) = Inl e \<longrightarrow>
            fst (handle_request w keys m model req) = Inl e)
       \<and> (\<forall>v. json_loads w (content resp) = Inr v \<longrightarrow>
            fst (handle_request w keys m model req)
              = (case json_dumps w v of
                   Inl e \<Rightarrow> Inl e
                 | Inr b \<Rightarrow> Inr (JSONResponse b (status_code resp))))"
  using handle_request_received [OF assms]
  by (auto simp: relay_def Let_def split: sum.splits)

text \<open>
  C9 on a run: the upstream answers 200 with an HTML page, and the handler ends with the
  parser's decoding error.
\<close>

theorem relay_raises_on_unparseable_body_witness:
  \<open>upstream_response
      (stub_world (Inr (''ya29.new'', 4600))
         (Inr \<lparr>status_code = 200, content = ''<html>Service Unavailable</html>''\<rparr>))
      VALID_API_KEYS cached_manager ''gemini-test'' scenario_request
     = Some \<lparr>status_code = 200, content = ''<html>Service Unavailable</html>''\<rparr>
   \<and> fst (handle_request
          (stub_world (Inr (''ya29.new'', 4600))
             (Inr \<lparr>status_code = 200, content = ''<html>Service Unavailable</html>''\<rparr>))
          VALID_API_KEYS cached_manager ''gemini-test'' scenario_request)
     = Inl (JSONDecodeError decode_error_text)\<close>
proof -
  let ?w = \<open>stub_world (Inr (''ya29.new'', 4600))
             (Inr \<lparr>status_code = 200, content = ''<html>Service Unavailable</html>''\<rparr>)\<close>
  have u: \<open>upstream_response ?w VALID_API_KEYS cached_manager ''gemini-test'' scenario_request
             = Some \<lparr>status_code = 200, content = ''<html>Service Unavailable</html>''\<rparr>\<close>
    by code_simp
  have l: \<open>json_loads ?w
              (content \<lparr>status_code = 200, content = ''<html>Service Unavailable</html>''\<rparr>)
             = Inl (JSONDecodeError decode_error_text)\<close>
    by code_simp
  from relay_raises_on_unparseable_body [OF u] l u show ?thesis by blast
qed

text \<open>
  C10. Every entry of the shipped key table is active, so for every request
  \<^verbatim>\<open>verify_api_key\<close> on the shipped table never gives status 403: it gives status 401
  or returns a key of the table.
\<close>

theorem shipped_keys_never_inactive:
  "list_all (\<lambda>(k, info). active info) VALID_API_KEYS
   \<and> fst (verify_api_key VALID_API_KEYS req) \<noteq> Inl (HTTPException 403 d)
   \<and> ((\<exists>d'. fst (verify_api_key VALID_API_KEYS req) = Inl (HTTPException 401 d'))
       \<or> (\<exists>k info. fst (verify_api_key VALID_API_KEYS req) = Inr k
             \<and> map_of VALID_API_KEYS k = Some info))"
proof (intro conjI)
  show "list_all (\<lambda>(k, info). active info) VALID_API_KEYS"
    by (simp add: VALID_API_KEYS_def)
  show "fst (verify_api_key VALID_API_KEYS req) \<noteq> Inl (HTTPException 403 d)"
    using verify_api_key_403 [of VALID_API_KEYS req d] VALID_API_KEYS_active by blast
  show "(\<exists>d'. fst (verify_api_key VALID_API_KEYS req) = Inl (HTTPException 401 d'))
       \<or> (\<exists>k info. fst (verify_api_key VALID_API_KEYS req) = Inr k
             \<and> map_of VALID_API_KEYS k = Some info)"
  proof (cases "fst (verify_api_key VALID_API_KEYS req)")
    case (Inl e)
    from verify_api_key_Inl [OF Inl] verify_api_key_403 [of VALID_API_KEYS req] Inl
      VALID_API_KEYS_active
    show ?thesis by blast
  next
    case (Inr k)
    from verify_api_key_Inr [OF Inr] Inr show ?thesis by blast
  qed
qed

text \<open>
  C10 on a request with the second key of the table.
\<close>

theorem shipped_keys_never_inactive_witness:
  "fst (verify_api_key VALID_API_KEYS
          \<lparr>authorization = Some ''Bearer sk-burncloud-admin'', raw_body = []\<rparr>)
     = Inr ''sk-burncloud-admin''
   \<and> map_option active (map_of VALID_API_KEYS ''sk-burncloud-admin'') = Some True
   \<and> map_option active (map_of VALID_API_KEYS ''sk-client-veo-001'') = Some True"
  using shipped_keys_never_inactive
    [of "\<lparr>authorization = Some ''Bearer sk-burncloud-admin'', raw_body = []\<rparr>"
        "''API Key is inactive''"]
  by (simp add: VALID_API_KEYS_def verify_api_key_bearer startswith_def)

end
